theory Spec2Isabelle
  imports Complex_Main "HOL-Library.Sublist" "HOL-Library.AList"
begin

section \<open>Python values, dictionaries and data frames\<close>

text \<open>
  The script handles three kinds of data: the cells that pandas reads from the simulator's
  CSV files, the result dictionaries built from them, and the lists of such dictionaries
  that become the data frames of the campaign.
\<close>

subsection \<open>Binary64 numbers\<close>

text \<open>
  A numpy float64: \<open>Fin m e\<close> is the finite number \<open>m * 2 ^ e\<close>, written with an odd
  \<open>m\<close> (or as \<open>Fin 0 0\<close>); the two zeros are not told apart. The product of two such
  numbers is the exact product rounded to the nearest number with 53 binary digits, ties
  to the even one, with the subnormal range below \<open>2 ^ (- 1022)\<close> and overflow to infinity.
\<close>

datatype float64 = Fin int int | PInf | NInf | NaN

text \<open>The number of binary digits of a natural number.\<close>

fun bit_length :: "nat \<Rightarrow> nat" where
  "bit_length n = (if n = 0 then 0 else Suc (bit_length (n div 2)))"

declare bit_length.simps [simp del]

text \<open>\<open>m * 2 ^ e\<close> written with an odd \<open>m\<close>.\<close>

fun strip_twos :: "nat \<Rightarrow> int \<Rightarrow> nat \<times> int" where
  "strip_twos m e = (if m = 0 \<or> odd m then (m, e) else strip_twos (m div 2) (e + 1))"

declare strip_twos.simps [simp del]

text \<open>\<open>M / 2 ^ s\<close> rounded to the nearest natural number, ties to the even one.\<close>

definition round_half_even :: "nat \<Rightarrow> nat \<Rightarrow> nat" where
  "round_half_even M s =
     (let q = M div 2 ^ s; r = M mod 2 ^ s
      in if 2 * r < 2 ^ s then q
         else if 2 * r > 2 ^ s then q + 1
         else if even q then q else q + 1)"

text \<open>
  The float64 nearest to \<open>M * 2 ^ e\<close>, negated when \<open>neg\<close>: as many low digits are
  dropped as leave 53, or as bring the exponent up to \<open>- 1074\<close>.
\<close>

definition round_f64 :: "bool \<Rightarrow> nat \<Rightarrow> int \<Rightarrow> float64" where
  "round_f64 neg M e =
     (let shift = max (int (bit_length M) - 53) (- 1074 - e);
          m = (if shift \<le> 0 then M else round_half_even M (nat shift));
          e' = (if shift \<le> 0 then e else e + shift)
      in if int (bit_length m) + e' > 1024 then (if neg then NInf else PInf)
         else (case strip_twos m e' of
                 (m', e'') \<Rightarrow>
                   if m' = 0 then Fin 0 0
                   else Fin (if neg then - int m' else int m') e''))"

fun f64_times_1000 :: "float64 \<Rightarrow> float64" where
  "f64_times_1000 (Fin m e) = round_f64 (m < 0) (nat \<bar>m\<bar> * 1000) e"
| "f64_times_1000 PInf = PInf"
| "f64_times_1000 NInf = NInf"
| "f64_times_1000 NaN = NaN"

text \<open>The rational number that a finite float64 stands for.\<close>

definition f64_value :: "int \<Rightarrow> int \<Rightarrow> rat" where
  "f64_value m e = (if 0 \<le> e then of_int m * 2 ^ nat e else of_int m / 2 ^ nat (- e))"

text \<open>The float64 nearest to 0.045, which is what the text \<^verbatim>\<open>0.045\<close> parses to.\<close>

definition f64_0_045 :: float64 where
  "f64_0_045 = Fin 3242591731706757 (- 56)"

text \<open>A numpy int64 product wraps around.\<close>

definition wrap64 :: "int \<Rightarrow> int" where
  "wrap64 x = (x + 2 ^ 63) mod 2 ^ 64 - 2 ^ 63"

subsection \<open>Values\<close>

text \<open>
  A value of a result dictionary: a Python int (the annotations of the sweeps), a numpy
  int64 or float64 (a cell of a numeric column), or a Python str (a label, or a cell of
  a column that pandas keeps as text).
\<close>

datatype pyval = PyInt int | I64 int | F64 float64 | Str string

fun is_number :: "pyval \<Rightarrow> bool" where
  "is_number (Str s) = False"
| "is_number v = True"

text \<open>The exceptions that the modelled operations can raise.\<close>

datatype exn =
    OSError
  | UnicodeDecodeError
  | FileNotFoundError
  | EmptyDataError
  | ParserError
  | KeyError
  | IndexError
  | ValueError

text \<open>
  Sequencing of steps that may raise: the first exception ends the sequence and is the
  result.
\<close>

definition and_then :: "exn + 'a \<Rightarrow> ('a \<Rightarrow> exn + 'b) \<Rightarrow> exn + 'b" where
  "and_then m f = (case m of Inl e \<Rightarrow> Inl e | Inr x \<Rightarrow> f x)"

text \<open>
  A Python dict keeps its keys in insertion order, an assignment to an existing key replaces
  the value in place and an assignment to a new key appends it: an association list with
  \<^const>\<open>AList.update\<close>.
\<close>

type_synonym pydict = "(string \<times> pyval) list"

definition dict_set :: "string \<Rightarrow> pyval \<Rightarrow> pydict \<Rightarrow> pydict" where
  "dict_set k v d = AList.update k v d"

text \<open>\<^verbatim>\<open>d[k]\<close>: KeyError when the key is absent.\<close>

definition dict_get :: "pydict \<Rightarrow> string \<Rightarrow> exn + pyval" where
  "dict_get d k = (case map_of d k of None \<Rightarrow> Inl KeyError | Some v \<Rightarrow> Inr v)"

subsection \<open>Data frames\<close>

text \<open>
  \<^verbatim>\<open>pd.read_csv\<close> reads the whole file and gives each column one type for all its
  rows: float64 or int64 when every cell of the column parses as such, and text as soon as
  one cell, in whatever row, does not. A column is therefore a list of one kind; in a
  column of text an empty cell is the float64 NaN, here \<open>None\<close>. (Columns of booleans
  and of unsigned integers, and the columns of mixed cells that a file read in several
  chunks can give, are left out.)
\<close>

datatype column = Floats "float64 list" | Ints "int list" | Texts "string option list"

fun text_cell :: "string option \<Rightarrow> pyval" where
  "text_cell None = F64 NaN"
| "text_cell (Some s) = Str s"

fun cells :: "column \<Rightarrow> pyval list" where
  "cells (Floats xs) = map F64 xs"
| "cells (Ints xs) = map I64 xs"
| "cells (Texts xs) = map text_cell xs"

type_synonym dataframe = "(string \<times> column) list"

text \<open>
  \<^verbatim>\<open>df[col].iloc[0]\<close>: KeyError when the column is absent, IndexError when the
  frame has no data row, else the first cell of the column.
\<close>

definition iloc0 :: "dataframe \<Rightarrow> string \<Rightarrow> exn + pyval" where
  "iloc0 df col =
     (case map_of df col of
        None \<Rightarrow> Inl KeyError
      | Some c \<Rightarrow> (case cells c of [] \<Rightarrow> Inl IndexError | v # rest \<Rightarrow> Inr v))"

text \<open>
  \<^verbatim>\<open>x * 1000\<close>: the float64 product, the wrapping int64 product, the product of
  Python ints, and for a Python str the string repeated 1000 times. None raises.
\<close>

fun times_1000 :: "pyval \<Rightarrow> pyval" where
  "times_1000 (F64 x) = F64 (f64_times_1000 x)"
| "times_1000 (I64 n) = I64 (wrap64 (n * 1000))"
| "times_1000 (PyInt n) = PyInt (n * 1000)"
| "times_1000 (Str s) = Str (concat (replicate 1000 s))"

text \<open>
  \<^verbatim>\<open>f"{v:.3f}"\<close>: a number is formatted; a str raises ValueError (unknown format
  code). The text produced only goes to the console and is not modelled.
\<close>

definition format_3f :: "pyval \<Rightarrow> exn + unit" where
  "format_3f v = (if is_number v then Inr () else Inl ValueError)"

text \<open>
  The truth value of what the executor returns: None and the empty dict are false.
  \<open>if_truthy out f z\<close> is \<^verbatim>\<open>if out: f(out)\<close>, with \<open>z\<close> when the test fails.
\<close>

fun if_truthy :: "pydict option \<Rightarrow> (pydict \<Rightarrow> 'a) \<Rightarrow> 'a \<Rightarrow> 'a" where
  "if_truthy None f z = z"
| "if_truthy (Some d) f z = (if d = [] then z else f d)"

section \<open>Decimal rendering of integers\<close>

text \<open>What an f-string writes for a Python int: decimal digits, with a leading minus sign.\<close>

fun show_nat :: "nat \<Rightarrow> string" where
  "show_nat n = (if n < 10 then [''0123456789'' ! n]
                 else show_nat (n div 10) @ [''0123456789'' ! (n mod 10)])"

declare show_nat.simps [simp del]

definition show_int :: "int \<Rightarrow> string" where
  "show_int i = (if i < 0 then CHR ''-'' # show_nat (nat (- i)) else show_nat (nat i))"

section \<open>Configuration paths\<close>

definition NS3_ROOT :: string where
  "NS3_ROOT = ''/home/chirag/acn_gowda/ns-3-dev-ecn''"

text \<open>\<^verbatim>\<open>os.path.join(a, b)\<close> for a relative \<open>b\<close> and an \<open>a\<close> without trailing slash.\<close>

definition path_join :: "string \<Rightarrow> string \<Rightarrow> string" where
  "path_join a b = a @ ''/'' @ b"

definition SCRATCH_DIR :: string where
  "SCRATCH_DIR = path_join NS3_ROOT ''scratch''"

definition OUTPUT_DIR :: string where
  "OUTPUT_DIR = path_join NS3_ROOT ''analysis_graphs''"

section \<open>The run executor\<close>

text \<open>
  The parameters of \<^verbatim>\<open>execute_ns3\<close>. \<open>call atk\<close> is a call that passes only the
  attack flag, so that every other parameter takes the default of the signature.
\<close>

record run_args =
  attack :: bool
  attack_rate :: int
  limit :: int
  node_count :: int
  win :: rat
  duration :: int

definition call :: "bool \<Rightarrow> run_args" where
  "call atk = \<lparr>attack = atk, attack_rate = 700, limit = 25, node_count = 25,
               win = 12 / 10, duration = 120\<rparr>"

text \<open>
  The command string of lines 36 to 48. The integer parameters are written in decimal;
  how Python writes the float \<open>win\<close> is a parameter of the model (\<open>fstr\<close>).
\<close>

definition build_command :: "(rat \<Rightarrow> string) \<Rightarrow> run_args \<Rightarrow> string" where
  "build_command fstr a =
     (if attack a then
        ''./ns3 run 'dioneighbour ''
        @ ''--attack=true --attackerPps='' @ show_int (attack_rate a) @ '' --attackerPkt=120 ''
        @ ''--threshold='' @ show_int (limit a) @ '' --windowSec='' @ fstr (win a)
        @ '' --nNodes='' @ show_int (node_count a) @ '' ''
        @ ''--area=60 --rateKbps=16 --simTime='' @ show_int (duration a) @ [CHR 0x27]
      else
        ''./ns3 run 'dioneighbour ''
        @ ''--attack=false --nNodes='' @ show_int (node_count a) @ '' --area=60 ''
        @ ''--rateKbps=16 --simTime='' @ show_int (duration a) @ [CHR 0x27])"

text \<open>
  The world outside the script: what \<^verbatim>\<open>subprocess.run\<close> does with a command on the
  state \<open>'s\<close> of the machine, which holds the result files (it returns the exit code of
  the process, or it raises: OSError when the process cannot be started,
  UnicodeDecodeError when its output is not valid text, whatever its exit code); what
  \<^verbatim>\<open>pd.read_csv\<close> makes of a path in that state; and the rendering of floats.
\<close>

record 's env =
  run_process :: "string \<Rightarrow> 's \<Rightarrow> (exn + int) \<times> 's"
  read_csv :: "string \<Rightarrow> 's \<Rightarrow> exn + dataframe"
  float_str :: "rat \<Rightarrow> string"

text \<open>The state threaded through the runs: the commands started so far and the machine.\<close>

record 's world =
  invoked :: "string list"
  ext :: "'s"

text \<open>The three result files of a run (lines 57 to 59).\<close>

definition pdr_csv :: string where
  "pdr_csv = NS3_ROOT @ ''/results/run1_pdr.csv''"

definition delay_csv :: string where
  "delay_csv = NS3_ROOT @ ''/results/run1_delay.csv''"

definition overhead_csv :: string where
  "overhead_csv = NS3_ROOT @ ''/results/run1_overhead.csv''"

text \<open>
  The body of the \<^verbatim>\<open>try\<close> block (lines 57 to 69): three files are read, then the
  first row of seven columns is taken; the first exception ends the block.
\<close>

definition read_results :: "'s env \<Rightarrow> 's \<Rightarrow> exn + pydict" where
  "read_results env s =
     and_then (read_csv env pdr_csv s) (\<lambda>pdr_df.
     and_then (read_csv env delay_csv s) (\<lambda>delay_df.
     and_then (read_csv env overhead_csv s) (\<lambda>over_df.
     and_then (iloc0 pdr_df ''pdr'') (\<lambda>pdr.
     and_then (iloc0 pdr_df ''tx'') (\<lambda>tx.
     and_then (iloc0 pdr_df ''rx'') (\<lambda>rx.
     and_then (iloc0 delay_df ''avg_delay_s'') (\<lambda>delay.
     and_then (iloc0 over_df ''control_tx'') (\<lambda>ctx.
     and_then (iloc0 over_df ''control_rx'') (\<lambda>crx.
     and_then (iloc0 over_df ''control_dropped'') (\<lambda>cdrop.
     Inr [(''pdr'', pdr), (''tx'', tx), (''rx'', rx), (''delay_ms'', times_1000 delay),
          (''ctrl_tx'', ctx), (''ctrl_rx'', crx), (''ctrl_dropped'', cdrop)]))))))))))"

text \<open>
  \<^verbatim>\<open>execute_ns3\<close>: the command is started (and logged in \<open>invoked\<close>). The call of
  \<^verbatim>\<open>subprocess.run\<close> stands outside the \<^verbatim>\<open>try\<close> block, so what it raises leaves
  the function. A non-zero exit code returns None; otherwise the \<^verbatim>\<open>try\<close> block runs
  and any exception in it returns None as well.
\<close>

definition execute_ns3 ::
  "'s env \<Rightarrow> run_args \<Rightarrow> 's world \<Rightarrow> (exn + pydict option) \<times> 's world" where
  "execute_ns3 env a w =
     (let command = build_command (float_str env) a;
          (result, s') = run_process env command (ext w);
          w' = \<lparr>invoked = invoked w @ [command], ext = s'\<rparr>
      in (case result of
            Inl e \<Rightarrow> (Inl e, w')
          | Inr returncode \<Rightarrow>
              (if returncode \<noteq> 0 then (Inr None, w')
               else (case read_results env s' of
                       Inl e \<Rightarrow> (Inr None, w')
                     | Inr r \<Rightarrow> (Inr (Some r), w')))))"

section \<open>The sweep generators\<close>

text \<open>
  The generators call whatever the module-level name \<^verbatim>\<open>execute_ns3\<close> is bound to: the
  executor is a parameter, over any state \<open>'w\<close>. It returns None or a dict, or it raises,
  and what it raises leaves the generator. It returns a fresh dict on each call, as
  \<^verbatim>\<open>execute_ns3\<close> does, so that the dicts are values here. The console is taken to
  accept every line that is printed.
\<close>

type_synonym 'w executor = "run_args \<Rightarrow> 'w \<Rightarrow> (exn + pydict option) \<times> 'w"

text \<open>\<^verbatim>\<open>print(f"... {out['pdr']:.3f}")\<close>: the lookup and the formatting may raise.\<close>

definition report_pdr :: "pydict \<Rightarrow> exn + unit" where
  "report_pdr out = and_then (dict_get out ''pdr'') format_3f"

text \<open>
  One case of \<^verbatim>\<open>gather_baselines\<close> (lines 87 to 91, 95 to 99, 103 to 107): the run, and
  on a true result the label, the append and the printed line.
\<close>

definition baseline_case ::
  "'w executor \<Rightarrow> run_args \<Rightarrow> string \<Rightarrow> pydict list \<Rightarrow> 'w \<Rightarrow> (exn + pydict list) \<times> 'w" where
  "baseline_case exec a label records w =
     (case exec a w of
        (Inl e, w') \<Rightarrow> (Inl e, w')
      | (Inr out, w') \<Rightarrow>
          (if_truthy out
             (\<lambda>d. let out' = dict_set ''scenario'' (Str label) d
                  in and_then (report_pdr out') (\<lambda>u. Inr (records @ [out'])))
             (Inr records),
           w'))"

definition gather_baselines :: "'w executor \<Rightarrow> 'w \<Rightarrow> (exn + pydict list) \<times> 'w" where
  "gather_baselines exec w =
     (case baseline_case exec (call False) ''RPL'' [] w of
        (Inl e, w1) \<Rightarrow> (Inl e, w1)
      | (Inr r1, w1) \<Rightarrow>
          (case baseline_case exec ((call True)\<lparr>limit := 999999999\<rparr>) ''InsecRPL'' r1 w1 of
             (Inl e, w2) \<Rightarrow> (Inl e, w2)
           | (Inr r2, w2) \<Rightarrow>
               baseline_case exec ((call True)\<lparr>limit := 25\<rparr>) ''SecRPL'' r2 w2))"

text \<open>The two assignments of lines 129 to 130, 136 to 137 and 145 to 146.\<close>

definition tag_rate :: "string \<Rightarrow> int \<Rightarrow> pydict \<Rightarrow> pydict" where
  "tag_rate label r res =
     dict_set ''attack_pps'' (PyInt r) (dict_set ''scenario'' (Str label) res)"

definition attack_case ::
  "'w executor \<Rightarrow> run_args \<Rightarrow> string \<Rightarrow> int \<Rightarrow> pydict list \<Rightarrow> 'w \<Rightarrow> (exn + pydict list) \<times> 'w" where
  "attack_case exec a label r combined w =
     (case exec a w of
        (Inl e, w') \<Rightarrow> (Inl e, w')
      | (Inr res, w') \<Rightarrow>
          (Inr (if_truthy res (\<lambda>d. combined @ [tag_rate label r d]) combined), w'))"

text \<open>The loop of lines 123 to 138 over the remaining rates.\<close>

fun attack_loop ::
  "'w executor \<Rightarrow> int list \<Rightarrow> pydict list \<Rightarrow> 'w \<Rightarrow> (exn + pydict list) \<times> 'w" where
  "attack_loop exec [] combined w = (Inr combined, w)"
| "attack_loop exec (r # rs) combined w =
     (case attack_case exec ((call True)\<lparr>attack_rate := r, limit := 999999999\<rparr>)
             ''InsecRPL'' r combined w of
        (Inl e, w1) \<Rightarrow> (Inl e, w1)
      | (Inr c1, w1) \<Rightarrow>
          (case attack_case exec ((call True)\<lparr>attack_rate := r, limit := 25\<rparr>)
                  ''SecRPL'' r c1 w1 of
             (Inl e, w2) \<Rightarrow> (Inl e, w2)
           | (Inr c2, w2) \<Rightarrow> attack_loop exec rs c2 w2))"

definition rates :: "int list" where
  "rates = [150, 300, 500, 700, 900, 1100]"

definition gather_attack_variants :: "'w executor \<Rightarrow> 'w \<Rightarrow> (exn + pydict list) \<times> 'w" where
  "gather_attack_variants exec w =
     (case attack_loop exec rates [] w of
        (Inl e, w1) \<Rightarrow> (Inl e, w1)
      | (Inr combined, w1) \<Rightarrow>
          (case exec (call False) w1 of
             (Inl e, w2) \<Rightarrow> (Inl e, w2)
           | (Inr ref, w2) \<Rightarrow>
               (Inr (if_truthy ref (\<lambda>d. combined @ map (\<lambda>r. tag_rate ''RPL'' r d) rates)
                       combined),
                w2)))"

text \<open>The two assignments of lines 167 to 168.\<close>

definition tag_threshold :: "int \<Rightarrow> pydict \<Rightarrow> pydict" where
  "tag_threshold lm out =
     dict_set ''threshold'' (PyInt lm) (dict_set ''scenario'' (Str ''SecRPL'') out)"

text \<open>One pass of the loop of lines 163 to 170.\<close>

definition threshold_case ::
  "'w executor \<Rightarrow> int \<Rightarrow> pydict list \<Rightarrow> 'w \<Rightarrow> (exn + pydict list) \<times> 'w" where
  "threshold_case exec lm collected w =
     (case exec ((call True)\<lparr>attack_rate := 700, limit := lm\<rparr>) w of
        (Inl e, w') \<Rightarrow> (Inl e, w')
      | (Inr out, w') \<Rightarrow>
          (if_truthy out
             (\<lambda>d. let out' = tag_threshold lm d
                  in and_then (report_pdr out') (\<lambda>u. Inr (collected @ [out'])))
             (Inr collected),
           w'))"

fun threshold_loop ::
  "'w executor \<Rightarrow> int list \<Rightarrow> pydict list \<Rightarrow> 'w \<Rightarrow> (exn + pydict list) \<times> 'w" where
  "threshold_loop exec [] collected w = (Inr collected, w)"
| "threshold_loop exec (lm # lms) collected w =
     (case threshold_case exec lm collected w of
        (Inl e, w') \<Rightarrow> (Inl e, w')
      | (Inr c, w') \<Rightarrow> threshold_loop exec lms c w')"

definition limits :: "int list" where
  "limits = [5, 15, 25, 35, 50, 70]"

definition gather_threshold_tests :: "'w executor \<Rightarrow> 'w \<Rightarrow> (exn + pydict list) \<times> 'w" where
  "gather_threshold_tests exec w = threshold_loop exec limits [] w"

section \<open>The script: environment checks and the campaign\<close>

text \<open>
  The file system as far as the script looks at it: which paths exist, as a directory or
  as a file. \<^verbatim>\<open>os.makedirs(p, exist_ok=True)\<close> walks the ancestors of \<open>p\<close> from the
  top: an existing directory is passed, an existing file raises, a missing directory is
  created when the system allows it (\<open>may_create\<close>) and raises otherwise. This is
  what the library function does on a file system in which a path exists only inside
  existing directories.
\<close>

datatype node = File | Dir

type_synonym filesystem = "string \<rightharpoonup> node"

fun dir_chain_from :: "string \<Rightarrow> string \<Rightarrow> string list" where
  "dir_chain_from acc [] = (if acc = [] then [] else [acc])"
| "dir_chain_from acc (c # cs) =
     (if c = CHR ''/'' \<and> acc \<noteq> [] then acc # dir_chain_from (acc @ [c]) cs
      else dir_chain_from (acc @ [c]) cs)"

fun makedirs_chain :: "(string \<Rightarrow> bool) \<Rightarrow> string list \<Rightarrow> filesystem \<Rightarrow> exn + filesystem" where
  "makedirs_chain may_create [] fs = Inr fs"
| "makedirs_chain may_create (d # ds) fs =
     (case fs d of
        Some Dir \<Rightarrow> makedirs_chain may_create ds fs
      | Some File \<Rightarrow> Inl OSError
      | None \<Rightarrow> (if may_create d then makedirs_chain may_create ds (fs(d \<mapsto> Dir))
                 else Inl OSError))"

definition os_makedirs :: "(string \<Rightarrow> bool) \<Rightarrow> string \<Rightarrow> filesystem \<Rightarrow> exn + filesystem" where
  "os_makedirs may_create p fs = makedirs_chain may_create (dir_chain_from [] p) fs"

definition path_exists :: "filesystem \<Rightarrow> string \<Rightarrow> bool" where
  "path_exists fs p = (fs p \<noteq> None)"

text \<open>
  How a run of the script ends: \<^verbatim>\<open>exit(1)\<close> after an error line, an uncaught
  exception, an early return of \<^verbatim>\<open>main\<close> after an error line, or the three sweeps
  done with their tables (what \<^verbatim>\<open>main\<close> does with them afterwards, files and figures,
  is not modelled).
\<close>

datatype report = RootMissing | ScratchMissing | CodeFileMissing

datatype outcome =
    Exited int report
  | Uncaught exn
  | Returned report
  | Sweeps_done "pydict list" "pydict list" "pydict list"

definition code_file :: string where
  "code_file = path_join SCRATCH_DIR ''dioneighbour.cc''"

definition main :: "'s env \<Rightarrow> filesystem \<Rightarrow> 's world \<Rightarrow> outcome \<times> 's world" where
  "main env fs w =
     (if \<not> path_exists fs code_file then (Returned CodeFileMissing, w)
      else
        (case gather_baselines (execute_ns3 env) w of
           (Inl e, w1) \<Rightarrow> (Uncaught e, w1)
         | (Inr base_df, w1) \<Rightarrow>
             (case gather_attack_variants (execute_ns3 env) w1 of
                (Inl e, w2) \<Rightarrow> (Uncaught e, w2)
              | (Inr rate_df, w2) \<Rightarrow>
                  (case gather_threshold_tests (execute_ns3 env) w2 of
                     (Inl e, w3) \<Rightarrow> (Uncaught e, w3)
                   | (Inr thresh_df, w3) \<Rightarrow> (Sweeps_done base_df rate_df thresh_df, w3)))))"

text \<open>The module level (lines 22 to 29) followed by the call of \<^verbatim>\<open>main\<close>.\<close>

definition script ::
  "'s env \<Rightarrow> (string \<Rightarrow> bool) \<Rightarrow> filesystem \<Rightarrow> 's world \<Rightarrow> outcome \<times> 's world" where
  "script env may_create fs w =
     (case os_makedirs may_create OUTPUT_DIR fs of
        Inl e \<Rightarrow> (Uncaught e, w)
      | Inr fs1 \<Rightarrow>
          (if \<not> path_exists fs1 NS3_ROOT then (Exited 1 RootMissing, w)
           else if \<not> path_exists fs1 SCRATCH_DIR then (Exited 1 ScratchMissing, w)
           else main env fs1 w))"

section \<open>Notions used in the statements\<close>

text \<open>
  A file is unusable for the parser when reading it raises (it is missing, empty or
  malformed), or when one of the columns wanted from it is absent or has no first row.
  A run has failed when the process exits with a non-zero code or one of the three files
  is unusable. The type of the cells plays no part.
\<close>

definition no_first_row :: "dataframe \<Rightarrow> string \<Rightarrow> bool" where
  "no_first_row df col = (case map_of df col of None \<Rightarrow> True | Some c \<Rightarrow> cells c = [])"

definition unusable :: "exn + dataframe \<Rightarrow> string list \<Rightarrow> bool" where
  "unusable r cols = (case r of Inl e \<Rightarrow> True | Inr df \<Rightarrow> list_ex (no_first_row df) cols)"

definition failed_run :: "'s env \<Rightarrow> int \<Rightarrow> 's \<Rightarrow> bool" where
  "failed_run env rc s =
     (rc \<noteq> 0
      \<or> unusable (read_csv env pdr_csv s) [''pdr'', ''tx'', ''rx'']
      \<or> unusable (read_csv env delay_csv s) [''avg_delay_s'']
      \<or> unusable (read_csv env overhead_csv s)
            [''control_tx'', ''control_rx'', ''control_dropped''])"

text \<open>
  A record whose printed line does not raise: it has a delivery ratio, and that is a
  number.
\<close>

definition prints_pdr :: "pydict \<Rightarrow> bool" where
  "prints_pdr d = (case map_of d ''pdr'' of None \<Rightarrow> False | Some v \<Rightarrow> is_number v)"

text \<open>The keys of the dict that \<^verbatim>\<open>execute_ns3\<close> returns, in the order of the literal.\<close>

definition result_keys :: "string list" where
  "result_keys = [''pdr'', ''tx'', ''rx'', ''delay_ms'', ''ctrl_tx'', ''ctrl_rx'', ''ctrl_dropped'']"

text \<open>The label of a record.\<close>

definition has_label :: "string \<Rightarrow> pydict \<Rightarrow> bool" where
  "has_label l d = (map_of d ''scenario'' = Some (Str l))"

subsection \<open>The baseline sweep as the specification describes it\<close>

text \<open>
  What a run contributes to the baseline table: its record under the label of its
  configuration, or nothing when it gave none.
\<close>

definition baseline_row :: "string \<Rightarrow> pydict option \<Rightarrow> pydict list" where
  "baseline_row label out = if_truthy out (\<lambda>d. [dict_set ''scenario'' (Str label) d]) []"

subsection \<open>The attack-intensity sweep as the specification describes it\<close>


text \<open>
  The outcomes of the attack runs in the order in which they are made: for each rate the
  result with the unlimited threshold and then the result with the nominal one, each run
  in the state the run before left; the first run that raises ends the sequence.
\<close>

fun run_rates ::
  "'w executor \<Rightarrow> int list \<Rightarrow> 'w
     \<Rightarrow> (exn + (pydict option \<times> pydict option) list) \<times> 'w" where
  "run_rates exec [] w = (Inr [], w)"
| "run_rates exec (r # rs) w =
     (case exec ((call True)\<lparr>attack_rate := r, limit := 999999999\<rparr>) w of
        (Inl e, w1) \<Rightarrow> (Inl e, w1)
      | (Inr insec, w1) \<Rightarrow>
          (case exec ((call True)\<lparr>attack_rate := r, limit := 25\<rparr>) w1 of
             (Inl e, w2) \<Rightarrow> (Inl e, w2)
           | (Inr sec, w2) \<Rightarrow>
               (case run_rates exec rs w2 of
                  (Inl e, w3) \<Rightarrow> (Inl e, w3)
                | (Inr outs, w3) \<Rightarrow> (Inr ((insec, sec) # outs), w3))))"

text \<open>
  The layout of the attack-intensity table: one block per rate, holding the InsecRPL
  record of that rate if its run gave one and then the SecRPL record of that rate if its
  run gave one; behind all blocks the reference block, which repeats the one attack-free
  result under the label RPL, once per rate.
\<close>

definition rate_block :: "int \<Rightarrow> pydict option \<Rightarrow> pydict option \<Rightarrow> pydict list" where
  "rate_block r insec sec =
     if_truthy insec (\<lambda>d. [tag_rate ''InsecRPL'' r d]) []
     @ if_truthy sec (\<lambda>d. [tag_rate ''SecRPL'' r d]) []"

fun rate_blocks :: "int list \<Rightarrow> (pydict option \<times> pydict option) list \<Rightarrow> pydict list" where
  "rate_blocks (r # rs) ((insec, sec) # outs) = rate_block r insec sec @ rate_blocks rs outs"
| "rate_blocks rs outs = []"

definition reference_block :: "int list \<Rightarrow> pydict option \<Rightarrow> pydict list" where
  "reference_block rs ref = if_truthy ref (\<lambda>d. map (\<lambda>r. tag_rate ''RPL'' r d) rs) []"

subsection \<open>The threshold sweep as the specification describes it\<close>

text \<open>
  The outcomes of the runs of the threshold sweep, one per threshold in the order of the
  list, each run in the state the run before left; the first run that raises ends the
  sequence.
\<close>

fun run_limits :: "'w executor \<Rightarrow> int list \<Rightarrow> 'w \<Rightarrow> (exn + pydict option list) \<times> 'w" where
  "run_limits exec [] w = (Inr [], w)"
| "run_limits exec (lm # lms) w =
     (case exec ((call True)\<lparr>attack_rate := 700, limit := lm\<rparr>) w of
        (Inl e, w1) \<Rightarrow> (Inl e, w1)
      | (Inr out, w1) \<Rightarrow>
          (case run_limits exec lms w1 of
             (Inl e, w2) \<Rightarrow> (Inl e, w2)
           | (Inr outs, w2) \<Rightarrow> (Inr (out # outs), w2)))"

text \<open>
  The layout of the threshold table: for each threshold in turn the record of the run
  made with that threshold, labelled SecRPL and annotated with that threshold, or nothing
  when that run gave no record.
\<close>

definition threshold_row :: "int \<Rightarrow> pydict option \<Rightarrow> pydict list" where
  "threshold_row lm out = if_truthy out (\<lambda>d. [tag_threshold lm d]) []"

fun threshold_rows :: "int list \<Rightarrow> pydict option list \<Rightarrow> pydict list" where
  "threshold_rows (lm # lms) (out # outs) = threshold_row lm out @ threshold_rows lms outs"
| "threshold_rows lms outs = []"

section \<open>Sample environments\<close>

text \<open>
  Small worlds to run the definitions on. The frames are given by the type and the
  cells of each column. In \<open>sample_env\<close> the process exits with 0 and the three files
  hold two numeric rows each, the first delay being 0.045. In \<open>text_row_env\<close> the first
  row of the packet-delivery file holds \<^verbatim>\<open>error\<close> where the ratio should stand, so
  that the column is text. In \<open>later_text_env\<close> the delay file holds
  \<^verbatim>\<open>0.045\<close> in its first row and \<^verbatim>\<open>fail\<close> in its second, so that the column is
  text. In \<open>missing_file_env\<close> only the first file is there. In \<open>undecodable_env\<close>
  the output of the process is not valid text.
\<close>

definition sample_frames :: "column \<Rightarrow> column \<Rightarrow> string \<Rightarrow> exn + dataframe" where
  "sample_frames pdr_column delay_column p =
     (if p = pdr_csv then
        Inr [(''pdr'', pdr_column), (''tx'', Ints [400, 1]), (''rx'', Ints [388, 2])]
      else if p = delay_csv then
        Inr [(''avg_delay_s'', delay_column)]
      else if p = overhead_csv then
        Inr [(''control_tx'', Ints [120, 3]), (''control_rx'', Ints [110, 4]),
             (''control_dropped'', Ints [10, 5])]
      else Inl FileNotFoundError)"

definition sample_env :: "unit env" where
  "sample_env = \<lparr>run_process = \<lambda>c s. (Inr 0, s),
                  read_csv = \<lambda>p s. sample_frames (Floats [Fin 3 (- 2), Fin 0 0])
                                        (Floats [f64_0_045, Fin 9 0]) p,
                  float_str = \<lambda>x. ''1.2''\<rparr>"

definition text_row_env :: "unit env" where
  "text_row_env = \<lparr>run_process = \<lambda>c s. (Inr 0, s),
                    read_csv = \<lambda>p s. sample_frames (Texts [Some ''error'', Some ''0''])
                                          (Floats [f64_0_045, Fin 9 0]) p,
                    float_str = \<lambda>x. ''1.2''\<rparr>"


definition missing_file_env :: "unit env" where
  "missing_file_env = \<lparr>run_process = \<lambda>c s. (Inr 0, s),
                        read_csv = \<lambda>p s. (if p = pdr_csv
                                           then sample_frames (Floats [Fin 1 0]) (Floats []) p
                                           else Inl FileNotFoundError),
                        float_str = \<lambda>x. ''1.2''\<rparr>"

definition undecodable_env :: "unit env" where
  "undecodable_env = \<lparr>run_process = \<lambda>c s. (Inl UnicodeDecodeError, s),
                       read_csv = \<lambda>p s. sample_frames (Floats [Fin 3 (- 2), Fin 0 0])
                                             (Floats [f64_0_045, Fin 9 0]) p,
                       float_str = \<lambda>x. ''1.2''\<rparr>"

text \<open>
  A world that counts the runs in its state: the process of the first run exits with 1,
  every later one with 0, and the files are those of \<open>sample_env\<close>.
\<close>

definition first_fails_env :: "nat env" where
  "first_fails_env = \<lparr>run_process = \<lambda>c n. (Inr (if n = 0 then 1 else 0), Suc n),
                        read_csv = \<lambda>p n. sample_frames (Floats [Fin 3 (- 2), Fin 0 0])
                                              (Floats [f64_0_045, Fin 9 0]) p,
                        float_str = \<lambda>x. ''1.2''\<rparr>"

definition start :: "unit world" where
  "start = \<lparr>invoked = [], ext = ()\<rparr>"

text \<open>
  A stub executor: it never raises, the result depends on the configuration alone, and
  the state is the list of the configurations run so far.
\<close>

definition logged :: "(run_args \<Rightarrow> pydict option) \<Rightarrow> run_args list executor" where
  "logged f a seen = (Inr (f a), seen @ [a])"

text \<open>
  A stub result function: seven numeric fields that depend on the configuration, and a
  failure for every attack run at rate 900 and for the threshold 5.
\<close>

definition sample_stub :: "run_args \<Rightarrow> pydict option" where
  "sample_stub a =
     (if attack a \<and> (attack_rate a = 900 \<or> limit a = 5) then None
      else Some [(''pdr'', F64 (if attack a then (if limit a = 25 then Fin 7 (- 3) else Fin 1 (- 1))
                                else Fin 1 0)),
                 (''tx'', I64 400), (''rx'', I64 388), (''delay_ms'', F64 (Fin 45 0)),
                 (''ctrl_tx'', I64 120), (''ctrl_rx'', I64 (attack_rate a)),
                 (''ctrl_dropped'', I64 10)])"

section \<open>Properties of the command string\<close>

lemma show_nat_chars: "set (show_nat n) \<subseteq> set ''0123456789''"
proof (induction n rule: show_nat.induct)
  case (1 n)
  have digit: "''0123456789'' ! k \<in> set ''0123456789''" if "k < 10" for k
    using that nth_mem [of k "''0123456789''"] by simp
  show ?case
  proof (cases "n < 10")
    case True
    then show ?thesis
      using digit [of n] by (subst show_nat.simps) simp
  next
    case False
    have "n mod 10 < 10" by simp
    then show ?thesis
      using False 1 digit [of "n mod 10"] by (subst show_nat.simps) simp
  qed
qed

lemma show_nat_nonempty: "show_nat n \<noteq> []"
  by (subst show_nat.simps) simp

lemma show_int_chars: "set (show_int i) \<subseteq> set ''-0123456789''"
proof -
  have eq: "set ''-0123456789'' = insert (CHR ''-'') (set ''0123456789'')"
    by (simp only: list.set)
  show ?thesis
  proof (cases "i < 0")
    case True
    then have "show_int i = CHR ''-'' # show_nat (nat (- i))"
      by (simp add: show_int_def)
    then have "set (show_int i) = insert (CHR ''-'') (set (show_nat (nat (- i))))"
      by (simp only: list.set)
    then show ?thesis
      unfolding eq using show_nat_chars [of "nat (- i)"] by (simp only: insert_mono)
  next
    case False
    then have "show_int i = show_nat (nat i)"
      by (simp add: show_int_def)
    then show ?thesis
      unfolding eq using show_nat_chars [of "nat i"] by (simp only: subset_insertI2)
  qed
qed

lemma show_int_nonempty: "show_int i \<noteq> []"
  by (simp add: show_int_def show_nat_nonempty)

text \<open>
  A pattern that shares no character with a non-empty middle part occurs in the whole
  string only if it occurs before or after that part.
\<close>

lemma disjoint_subset_Nil:
  assumes d: "set ms \<inter> set p = {}" and s: "set p \<subseteq> set ms"
  shows "p = []"
proof -
  have "set p = {}"
  proof (rule ccontr)
    assume "set p \<noteq> {}"
    then obtain x where "x \<in> set p" by fastforce
    with s d show False by (metis IntI empty_iff subsetD)
  qed
  then show ?thesis by simp
qed

lemma sublist_skip_left:
  assumes sub: "sublist p (ms @ ys)" and disj: "set ms \<inter> set p = {}"
  shows "sublist p ys"
proof -
  from sub consider "sublist p ms" | "sublist p ys"
    | p1 p2 where "p = p1 @ p2" "suffix p1 ms" "prefix p2 ys"
    unfolding sublist_append by blast
  then show ?thesis
  proof cases
    case 1
    then have "set p \<subseteq> set ms" by (rule set_mono_sublist)
    with disj have "p = []" by (rule disjoint_subset_Nil)
    then show ?thesis by simp
  next
    case 2
    then show ?thesis .
  next
    case 3
    from 3(2) have "set p1 \<subseteq> set ms" by (rule set_mono_suffix)
    moreover have "set ms \<inter> set p1 = {}" using disj unfolding 3(1) by auto
    ultimately have "p1 = []" by (rule disjoint_subset_Nil [rotated])
    with 3 show ?thesis by simp
  qed
qed

lemma sublist_skip_middle:
  assumes sub: "sublist p (xs @ ms @ ys)"
    and ne: "ms \<noteq> []"
    and disj: "set ms \<inter> set p = {}"
  shows "sublist p xs \<or> sublist p ys"
proof -
  from sub consider "sublist p xs" | "sublist p (ms @ ys)"
    | p1 p2 where "p = p1 @ p2" "suffix p1 xs" "prefix p2 (ms @ ys)"
    unfolding sublist_append [of p xs] by blast
  then show ?thesis
  proof cases
    case 1
    then show ?thesis ..
  next
    case 2
    then have "sublist p ys" using disj by (rule sublist_skip_left)
    then show ?thesis ..
  next
    case 3
    show ?thesis
    proof (cases p2)
      case Nil
      with 3 have "sublist p xs" by simp
      then show ?thesis ..
    next
      case (Cons c cs)
      from ne obtain m ms' where ms: "ms = m # ms'" by (cases ms) auto
      from 3(3) have "prefix (c # cs) ((m # ms') @ ys)"
        unfolding Cons ms .
      then have "c = m" by simp
      moreover have "c \<in> set p" unfolding 3(1) Cons by simp
      moreover have "m \<in> set ms" unfolding ms by simp
      ultimately have False using disj by blast
      then show ?thesis ..
    qed
  qed
qed

lemma disabled_shape:
  "\<not> attack a \<Longrightarrow> build_command fstr a =
     ''./ns3 run 'dioneighbour --attack=false --nNodes='' @ show_int (node_count a)
     @ '' --area=60 --rateKbps=16 --simTime='' @ show_int (duration a) @ [CHR 0x27]"
  by (simp add: build_command_def)

lemma digits_disjoint:
  "set p \<inter> set ''-0123456789'' = {} \<Longrightarrow> set (show_int i) \<inter> set p = {}"
  using show_int_chars [of i] by blast

lemma no_pattern_between_numbers:
  assumes p: "set p \<inter> set ''-0123456789'' = {}"
    and A: "\<not> sublist p A" and B: "\<not> sublist p B" and C: "\<not> sublist p C"
  shows "\<not> sublist p (A @ show_int n @ B @ show_int d @ C)"
proof
  assume "sublist p (A @ show_int n @ B @ show_int d @ C)"
  then have "sublist p A \<or> sublist p (B @ show_int d @ C)"
    using show_int_nonempty digits_disjoint [OF p] by (rule sublist_skip_middle)
  with A have "sublist p (B @ show_int d @ C)" by simp
  then have "sublist p B \<or> sublist p C"
    using show_int_nonempty digits_disjoint [OF p] by (rule sublist_skip_middle)
  with B C show False by simp
qed

lemma disabled_command_lacks:
  assumes "\<not> attack a"
    and "set p \<inter> set ''-0123456789'' = {}"
    and "\<not> sublist p ''./ns3 run 'dioneighbour --attack=false --nNodes=''"
    and "\<not> sublist p '' --area=60 --rateKbps=16 --simTime=''"
    and "\<not> sublist p [CHR 0x27]"
  shows "\<not> sublist p (build_command fstr a)"
  unfolding disabled_shape [OF assms(1)]
  using assms(2-5) by (rule no_pattern_between_numbers)

lemma execute_ns3_invoked:
  "invoked (snd (execute_ns3 env a w)) = invoked w @ [build_command (float_str env) a]"
  by (simp add: execute_ns3_def Let_def split: prod.split sum.split)

text \<open>
  Claim C1. With the attack flag off, the command that \<^verbatim>\<open>execute_ns3\<close> starts is the
  built command string, and that string contains none of \<^verbatim>\<open>attackerPps\<close>,
  \<^verbatim>\<open>attackerPkt\<close>, \<^verbatim>\<open>threshold\<close> and \<^verbatim>\<open>windowSec\<close>, for every node count and
  duration; the values of \<open>attack_rate\<close>, \<open>limit\<close> and \<open>win\<close> do not change it.
\<close>

theorem attack_disabled_command:
  assumes "\<not> attack a"
  shows "invoked (snd (execute_ns3 env a w)) = invoked w @ [build_command (float_str env) a]
    \<and> \<not> sublist ''attackerPps'' (build_command (float_str env) a)
    \<and> \<not> sublist ''attackerPkt'' (build_command (float_str env) a)
    \<and> \<not> sublist ''threshold'' (build_command (float_str env) a)
    \<and> \<not> sublist ''windowSec'' (build_command (float_str env) a)
    \<and> build_command (float_str env) (a\<lparr>attack_rate := r, limit := l, win := x\<rparr>)
        = build_command (float_str env) a"
proof -
  have 1: "\<not> sublist ''attackerPps'' (build_command (float_str env) a)"
    by (rule disabled_command_lacks [OF assms]; code_simp)
  have 2: "\<not> sublist ''attackerPkt'' (build_command (float_str env) a)"
    by (rule disabled_command_lacks [OF assms]; code_simp)
  have 3: "\<not> sublist ''threshold'' (build_command (float_str env) a)"
    by (rule disabled_command_lacks [OF assms]; code_simp)
  have 4: "\<not> sublist ''windowSec'' (build_command (float_str env) a)"
    by (rule disabled_command_lacks [OF assms]; code_simp)
  have 5: "build_command (float_str env) (a\<lparr>attack_rate := r, limit := l, win := x\<rparr>)
        = build_command (float_str env) a"
    using assms by (simp add: build_command_def)
  from 1 2 3 4 5 execute_ns3_invoked show ?thesis by blast
qed

theorem attack_disabled_command_witness:
  "\<not> attack (call False)
   \<and> build_command (\<lambda>x. ''1.2'') (call False)
       = ''./ns3 run 'dioneighbour --attack=false --nNodes=25 --area=60 --rateKbps=16 --simTime=120'' @ [CHR 0x27]
   \<and> \<not> sublist ''threshold'' (build_command (\<lambda>x. ''1.2'') (call False))"
proof -
  have h: "\<not> attack (call False)"
    by (simp add: call_def)
  have c: "build_command (\<lambda>x. ''1.2'') (call False)
       = ''./ns3 run 'dioneighbour --attack=false --nNodes=25 --area=60 --rateKbps=16 --simTime=120'' @ [CHR 0x27]"
    by code_simp
  show ?thesis
    using h c attack_disabled_command [OF h,
        of "\<lparr>run_process = \<lambda>c s. (Inr 0, s), read_csv = \<lambda>p s. Inl FileNotFoundError,
             float_str = \<lambda>x. ''1.2''\<rparr>" "\<lparr>invoked = [], ext = ()\<rparr>"]
    by simp
qed

lemma sublist_eqI: "ys = ps @ xs @ ss \<Longrightarrow> sublist xs ys"
  by (simp only: sublist_appendI)

text \<open>
  Claim C2. With the attack flag on, the built command string contains each of the four
  attack parameters with the value supplied (\<^verbatim>\<open>attackerPps\<close> the attack rate,
  \<^verbatim>\<open>attackerPkt\<close> the fixed 120, \<^verbatim>\<open>threshold\<close> the limit, \<^verbatim>\<open>windowSec\<close> the
  window as Python writes it), each closed by the blank that follows it, next to
  \<^verbatim>\<open>nNodes\<close>, \<^verbatim>\<open>area\<close>, \<^verbatim>\<open>rateKbps\<close> and \<^verbatim>\<open>simTime\<close>.
\<close>

theorem attack_enabled_command:
  assumes "attack a"
  shows "sublist (''--attack=true '') (build_command fstr a)
    \<and> sublist (''--attackerPps='' @ show_int (attack_rate a) @ '' '') (build_command fstr a)
    \<and> sublist (''--attackerPkt=120 '') (build_command fstr a)
    \<and> sublist (''--threshold='' @ show_int (limit a) @ '' '') (build_command fstr a)
    \<and> sublist (''--windowSec='' @ fstr (win a) @ '' '') (build_command fstr a)
    \<and> sublist (''--nNodes='' @ show_int (node_count a) @ '' '') (build_command fstr a)
    \<and> sublist (''--area=60 '') (build_command fstr a)
    \<and> sublist (''--rateKbps=16 '') (build_command fstr a)
    \<and> sublist (''--simTime='' @ show_int (duration a) @ [CHR 0x27]) (build_command fstr a)"
proof -
  let ?c = "build_command fstr a"
  let ?r = "show_int (attack_rate a)" and ?l = "show_int (limit a)" and ?w = "fstr (win a)"
  let ?n = "show_int (node_count a)" and ?d = "show_int (duration a)"
  have 0: "sublist (''--attack=true '') ?c"
    by (rule sublist_eqI [where ps = "''./ns3 run 'dioneighbour ''"
          and ss = "''--attackerPps='' @ ?r @ '' --attackerPkt=120 --threshold='' @ ?l
             @ '' --windowSec='' @ ?w @ '' --nNodes='' @ ?n
             @ '' --area=60 --rateKbps=16 --simTime='' @ ?d @ [CHR 0x27]"])
       (simp add: build_command_def assms)
  have 1: "sublist (''--attackerPps='' @ ?r @ '' '') ?c"
    by (rule sublist_eqI [where ps = "''./ns3 run 'dioneighbour --attack=true ''"
          and ss = "''--attackerPkt=120 --threshold='' @ ?l
             @ '' --windowSec='' @ ?w @ '' --nNodes='' @ ?n
             @ '' --area=60 --rateKbps=16 --simTime='' @ ?d @ [CHR 0x27]"])
       (simp add: build_command_def assms)
  have 2: "sublist (''--attackerPkt=120 '') ?c"
    by (rule sublist_eqI [where ps = "''./ns3 run 'dioneighbour --attack=true --attackerPps='' @ ?r @ '' ''"
          and ss = "''--threshold='' @ ?l
             @ '' --windowSec='' @ ?w @ '' --nNodes='' @ ?n
             @ '' --area=60 --rateKbps=16 --simTime='' @ ?d @ [CHR 0x27]"])
       (simp add: build_command_def assms)
  have 3: "sublist (''--threshold='' @ ?l @ '' '') ?c"
    by (rule sublist_eqI [where ps = "''./ns3 run 'dioneighbour --attack=true --attackerPps='' @ ?r
             @ '' --attackerPkt=120 ''"
          and ss = "''--windowSec='' @ ?w @ '' --nNodes='' @ ?n
             @ '' --area=60 --rateKbps=16 --simTime='' @ ?d @ [CHR 0x27]"])
       (simp add: build_command_def assms)
  have 4: "sublist (''--windowSec='' @ ?w @ '' '') ?c"
    by (rule sublist_eqI [where ps = "''./ns3 run 'dioneighbour --attack=true --attackerPps='' @ ?r
             @ '' --attackerPkt=120 --threshold='' @ ?l @ '' ''"
          and ss = "''--nNodes='' @ ?n
             @ '' --area=60 --rateKbps=16 --simTime='' @ ?d @ [CHR 0x27]"])
       (simp add: build_command_def assms)
  have 5: "sublist (''--nNodes='' @ ?n @ '' '') ?c"
    by (rule sublist_eqI [where ps = "''./ns3 run 'dioneighbour --attack=true --attackerPps='' @ ?r
             @ '' --attackerPkt=120 --threshold='' @ ?l @ '' --windowSec='' @ ?w @ '' ''"
          and ss = "''--area=60 --rateKbps=16 --simTime='' @ ?d @ [CHR 0x27]"])
       (simp add: build_command_def assms)
  have 6: "sublist (''--area=60 '') ?c"
    by (rule sublist_eqI [where ps = "''./ns3 run 'dioneighbour --attack=true --attackerPps='' @ ?r
             @ '' --attackerPkt=120 --threshold='' @ ?l @ '' --windowSec='' @ ?w
             @ '' --nNodes='' @ ?n @ '' ''"
          and ss = "''--rateKbps=16 --simTime='' @ ?d @ [CHR 0x27]"])
       (simp add: build_command_def assms)
  have 7: "sublist (''--rateKbps=16 '') ?c"
    by (rule sublist_eqI [where ps = "''./ns3 run 'dioneighbour --attack=true --attackerPps='' @ ?r
             @ '' --attackerPkt=120 --threshold='' @ ?l @ '' --windowSec='' @ ?w
             @ '' --nNodes='' @ ?n @ '' --area=60 ''"
          and ss = "''--simTime='' @ ?d @ [CHR 0x27]"])
       (simp add: build_command_def assms)
  have 8: "sublist (''--simTime='' @ ?d @ [CHR 0x27]) ?c"
    by (rule sublist_eqI [where ps = "''./ns3 run 'dioneighbour --attack=true --attackerPps='' @ ?r
             @ '' --attackerPkt=120 --threshold='' @ ?l @ '' --windowSec='' @ ?w
             @ '' --nNodes='' @ ?n @ '' --area=60 --rateKbps=16 ''"
          and ss = "[]"])
       (simp add: build_command_def assms)
  from 0 1 2 3 4 5 6 7 8 show ?thesis by blast
qed

theorem attack_enabled_command_witness:
  "attack ((call True)\<lparr>attack_rate := 300, limit := 999999999\<rparr>)
   \<and> build_command (\<lambda>x. ''1.2'') ((call True)\<lparr>attack_rate := 300, limit := 999999999\<rparr>)
       = ''./ns3 run 'dioneighbour --attack=true --attackerPps=300 --attackerPkt=120 --threshold=999999999 --windowSec=1.2 --nNodes=25 --area=60 --rateKbps=16 --simTime=120''
         @ [CHR 0x27]
   \<and> sublist ''--threshold=999999999 ''
         (build_command (\<lambda>x. ''1.2'') ((call True)\<lparr>attack_rate := 300, limit := 999999999\<rparr>))"
proof -
  let ?a = "(call True)\<lparr>attack_rate := 300, limit := 999999999\<rparr>"
  have h: "attack ?a"
    by (simp add: call_def)
  have c: "build_command (\<lambda>x. ''1.2'') ?a
       = ''./ns3 run 'dioneighbour --attack=true --attackerPps=300 --attackerPkt=120 --threshold=999999999 --windowSec=1.2 --nNodes=25 --area=60 --rateKbps=16 --simTime=120''
         @ [CHR 0x27]"
    by (simp add: build_command_def call_def show_int_def show_nat.simps)
  have l: "show_int (limit ?a) = ''999999999''"
    by (simp add: call_def show_int_def show_nat.simps)
  have "sublist (''--threshold='' @ show_int (limit ?a) @ '' '') (build_command (\<lambda>x. ''1.2'') ?a)"
    by (rule attack_enabled_command [OF h, THEN conjunct2, THEN conjunct2, THEN conjunct2,
          THEN conjunct1])
  then have t: "sublist ''--threshold=999999999 '' (build_command (\<lambda>x. ''1.2'') ?a)"
    unfolding l by (simp only: append.simps)
  from h c t show ?thesis
    by (intro conjI)
qed

section \<open>The result parser\<close>

text \<open>The rules that evaluate a float64 product.\<close>

lemmas f64_eval = round_f64_def round_half_even_def bit_length.simps strip_twos.simps Let_def

text \<open>
  The constant \<open>f64_0_045\<close> lies within half a unit of the last place of 0.045, and
  the model of the product agrees with numpy on the examples: 0.045 gives 45.0, 0.0041
  gives 4.1000000000000005, and the largest int64 times 1000 wraps to - 1000.
\<close>

lemma f64_0_045_nearest:
  "\<bar>45 / 1000 - f64_value 3242591731706757 (- 56)\<bar> < 1 / 2 ^ 58"
  by (simp add: f64_value_def)

lemma delay_0_045_ms: "f64_times_1000 f64_0_045 = Fin 45 0"
  by (simp add: f64_0_045_def f64_eval)

lemma delay_0_0041_ms:
  "f64_times_1000 (Fin 4726978168888073 (- 60)) = Fin 4616189618054759 (- 50)"
  by (simp add: f64_eval)

lemma int64_product_wraps: "times_1000 (I64 9223372036854775807) = I64 (- 1000)"
  by (simp add: wrap64_def)


lemma execute_ns3_unfold:
  assumes "run_process env (build_command (float_str env) a) (ext w) = (Inr rc, s)"
  shows "execute_ns3 env a w =
     (Inr (if rc \<noteq> 0 then None
           else (case read_results env s of Inl e \<Rightarrow> None | Inr r \<Rightarrow> Some r)),
      \<lparr>invoked = invoked w @ [build_command (float_str env) a], ext = s\<rparr>)"
  using assms by (simp add: execute_ns3_def Let_def split: sum.split)

lemma execute_ns3_raises:
  assumes "run_process env (build_command (float_str env) a) (ext w) = (Inl e, s)"
  shows "execute_ns3 env a w =
     (Inl e, \<lparr>invoked = invoked w @ [build_command (float_str env) a], ext = s\<rparr>)"
  using assms by (simp add: execute_ns3_def Let_def)




section \<open>Dictionaries and printed lines\<close>

lemma map_of_dict_set: "map_of (dict_set k v d) = (map_of d)(k \<mapsto> v)"
  by (simp add: dict_set_def update_conv')

lemma update_new_key: "k \<notin> set (map fst d) \<Longrightarrow> AList.update k v d = d @ [(k, v)]"
  by (induction d) auto

lemma map_of_tag_rate:
  "map_of (tag_rate l r d) k =
     (if k = ''attack_pps'' then Some (PyInt r)
      else if k = ''scenario'' then Some (Str l) else map_of d k)"
  by (simp add: tag_rate_def map_of_dict_set)

lemma map_of_tag_threshold:
  "map_of (tag_threshold lm d) k =
     (if k = ''threshold'' then Some (PyInt lm)
      else if k = ''scenario'' then Some (Str ''SecRPL'') else map_of d k)"
  by (simp add: tag_threshold_def map_of_dict_set)


lemma report_pdr_cases:
  obtains (fine) "prints_pdr d" "report_pdr d = Inr ()"
  | (no_key) "\<not> prints_pdr d" "report_pdr d = Inl KeyError"
  | (not_number) "\<not> prints_pdr d" "report_pdr d = Inl ValueError"
proof (cases "map_of d ''pdr''")
  case None
  then have "\<not> prints_pdr d" "report_pdr d = Inl KeyError"
    by (simp_all add: prints_pdr_def report_pdr_def dict_get_def and_then_def)
  then show ?thesis by (rule no_key)
next
  case (Some v)
  show ?thesis
  proof (cases "is_number v")
    case True
    with Some have "prints_pdr d" "report_pdr d = Inr ()"
      by (simp_all add: prints_pdr_def report_pdr_def dict_get_def and_then_def format_3f_def)
    then show ?thesis by (rule fine)
  next
    case False
    with Some have "\<not> prints_pdr d" "report_pdr d = Inl ValueError"
      by (simp_all add: prints_pdr_def report_pdr_def dict_get_def and_then_def format_3f_def)
    then show ?thesis by (rule not_number)
  qed
qed

lemma report_pdr_ok: "prints_pdr d \<Longrightarrow> report_pdr d = Inr ()"
  by (cases d rule: report_pdr_cases) simp_all

lemma report_pdr_prints: "report_pdr d = Inr u \<Longrightarrow> prints_pdr d"
  by (cases d rule: report_pdr_cases) simp_all

lemma report_pdr_error: "report_pdr d = Inl e \<Longrightarrow> e = KeyError \<or> e = ValueError"
  by (cases d rule: report_pdr_cases) simp_all


section \<open>The baseline sweep\<close>

lemma baseline_case_raise:
  "exec a w = (Inl e, w') \<Longrightarrow> baseline_case exec a label records w = (Inl e, w')"
  by (simp add: baseline_case_def)

lemma prints_pdr_scenario: "prints_pdr (dict_set ''scenario'' v d) = prints_pdr d"
  by (simp add: prints_pdr_def map_of_dict_set)

lemma baseline_case_row:
  assumes "exec a w = (Inr out, w')" and "list_all prints_pdr (baseline_row label out)"
  shows "baseline_case exec a label records w = (Inr (records @ baseline_row label out), w')"
proof (cases out)
  case None
  with assms(1) show ?thesis
    by (simp add: baseline_case_def baseline_row_def)
next
  case (Some d)
  show ?thesis
  proof (cases "d = []")
    case True
    with Some assms(1) show ?thesis
      by (simp add: baseline_case_def baseline_row_def)
  next
    case False
    with Some assms(2) have "prints_pdr (dict_set ''scenario'' (Str label) d)"
      by (simp add: baseline_row_def)
    then have "report_pdr (dict_set ''scenario'' (Str label) d) = Inr ()"
      by (rule report_pdr_ok)
    with Some False assms(1) show ?thesis
      by (simp add: baseline_case_def baseline_row_def and_then_def)
  qed
qed

lemma gather_baselines_rows:
  assumes r1: "exec (call False) w = (Inr o1, w1)"
    and r2: "exec ((call True)\<lparr>limit := 999999999\<rparr>) w1 = (Inr o2, w2)"
    and r3: "exec ((call True)\<lparr>limit := 25\<rparr>) w2 = (Inr o3, w3)"
    and p: "list_all prints_pdr
              (baseline_row ''RPL'' o1 @ baseline_row ''InsecRPL'' o2 @ baseline_row ''SecRPL'' o3)"
  shows "gather_baselines exec w =
           (Inr (baseline_row ''RPL'' o1 @ baseline_row ''InsecRPL'' o2
                 @ baseline_row ''SecRPL'' o3), w3)"
proof -
  from p have p1: "list_all prints_pdr (baseline_row ''RPL'' o1)"
    and p2: "list_all prints_pdr (baseline_row ''InsecRPL'' o2)"
    and p3: "list_all prints_pdr (baseline_row ''SecRPL'' o3)"
    by simp_all
  have 1: "baseline_case exec (call False) ''RPL'' [] w = (Inr ([] @ baseline_row ''RPL'' o1), w1)"
    using r1 p1 by (rule baseline_case_row)
  have 2: "baseline_case exec ((call True)\<lparr>limit := 999999999\<rparr>) ''InsecRPL''
             (baseline_row ''RPL'' o1) w1
           = (Inr (baseline_row ''RPL'' o1 @ baseline_row ''InsecRPL'' o2), w2)"
    using r2 p2 by (rule baseline_case_row)
  have 3: "baseline_case exec ((call True)\<lparr>limit := 25\<rparr>) ''SecRPL''
             (baseline_row ''RPL'' o1 @ baseline_row ''InsecRPL'' o2) w2
           = (Inr ((baseline_row ''RPL'' o1 @ baseline_row ''InsecRPL'' o2)
                   @ baseline_row ''SecRPL'' o3), w3)"
    using r3 p3 by (rule baseline_case_row)
  from 1 2 3 show ?thesis
    by (simp add: gather_baselines_def)
qed

text \<open>
  Claim C4. The baseline sweep runs three configurations one after the other, each in the
  state the run before left: no attack; attack with the threshold 999999999, which no
  count of packets reaches; attack with the nominal threshold 25. When the three runs
  return records (whose delivery ratio is a number), the sweep returns a table of exactly
  three records, labelled RPL, InsecRPL and SecRPL in that order, each the record of its
  own run with the label added, in the state the third run left.
\<close>

theorem baseline_sweep_three_runs:
  assumes r1: "exec (call False) w = (Inr (Some d1), w1)"
    and r2: "exec ((call True)\<lparr>limit := 999999999\<rparr>) w1 = (Inr (Some d2), w2)"
    and r3: "exec ((call True)\<lparr>limit := 25\<rparr>) w2 = (Inr (Some d3), w3)"
    and n1: "map_of d1 ''pdr'' = Some v1" "is_number v1"
    and n2: "map_of d2 ''pdr'' = Some v2" "is_number v2"
    and n3: "map_of d3 ''pdr'' = Some v3" "is_number v3"
  shows "(case gather_baselines exec w of
            (Inl e, w') \<Rightarrow> False
          | (Inr table, w') \<Rightarrow>
              w' = w3 \<and> length table = 3
              \<and> map (\<lambda>d. map_of d ''scenario'') table
                  = [Some (Str ''RPL''), Some (Str ''InsecRPL''), Some (Str ''SecRPL'')]
              \<and> table = [dict_set ''scenario'' (Str ''RPL'') d1,
                          dict_set ''scenario'' (Str ''InsecRPL'') d2,
                          dict_set ''scenario'' (Str ''SecRPL'') d3])"
proof -
  have ne: "d1 \<noteq> []" "d2 \<noteq> []" "d3 \<noteq> []"
    using n1(1) n2(1) n3(1) by auto
  have pr: "prints_pdr d1" "prints_pdr d2" "prints_pdr d3"
    using n1 n2 n3 by (simp_all add: prints_pdr_def)
  have rows: "baseline_row l (Some d1) = [dict_set ''scenario'' (Str l) d1]"
      "baseline_row l (Some d2) = [dict_set ''scenario'' (Str l) d2]"
      "baseline_row l (Some d3) = [dict_set ''scenario'' (Str l) d3]" for l
    using ne by (simp_all add: baseline_row_def)
  have "gather_baselines exec w =
          (Inr (baseline_row ''RPL'' (Some d1) @ baseline_row ''InsecRPL'' (Some d2)
                @ baseline_row ''SecRPL'' (Some d3)), w3)"
    using r1 r2 r3
    by (rule gather_baselines_rows) (simp add: rows prints_pdr_scenario pr)
  then show ?thesis
    by (simp add: rows map_of_dict_set)
qed

theorem baseline_sweep_three_runs_witness:
  "(case gather_baselines (logged sample_stub) [] of
      (Inl e, w') \<Rightarrow> False
    | (Inr table, w') \<Rightarrow>
        w' = [call False, (call True)\<lparr>limit := 999999999\<rparr>, (call True)\<lparr>limit := 25\<rparr>]
        \<and> length table = 3
        \<and> map (\<lambda>d. map_of d ''scenario'') table
            = [Some (Str ''RPL''), Some (Str ''InsecRPL''), Some (Str ''SecRPL'')]
        \<and> map (\<lambda>d. map_of d ''pdr'') table
            = [Some (F64 (Fin 1 0)), Some (F64 (Fin 1 (- 1))), Some (F64 (Fin 7 (- 3)))])"
proof -
  let ?a = "call False" and ?b = "(call True)\<lparr>limit := 999999999\<rparr>"
    and ?c = "(call True)\<lparr>limit := 25\<rparr>"
  obtain d1 where d1: "sample_stub ?a = Some d1" "map_of d1 ''pdr'' = Some (F64 (Fin 1 0))"
    by (simp add: sample_stub_def call_def)
  obtain d2 where d2: "sample_stub ?b = Some d2" "map_of d2 ''pdr'' = Some (F64 (Fin 1 (- 1)))"
    by (simp add: sample_stub_def call_def)
  obtain d3 where d3: "sample_stub ?c = Some d3" "map_of d3 ''pdr'' = Some (F64 (Fin 7 (- 3)))"
    by (simp add: sample_stub_def call_def)
  have r1: "logged sample_stub ?a [] = (Inr (Some d1), [?a])"
    by (simp add: logged_def d1)
  have r2: "logged sample_stub ?b [?a] = (Inr (Some d2), [?a, ?b])"
    by (simp add: logged_def d2)
  have r3: "logged sample_stub ?c [?a, ?b] = (Inr (Some d3), [?a, ?b, ?c])"
    by (simp add: logged_def d3)
  have num: "is_number (F64 x)" for x
    by simp
  show ?thesis
    using baseline_sweep_three_runs [of "logged sample_stub" "[]" d1 "[?a]" d2 "[?a, ?b]" d3
        "[?a, ?b, ?c]", OF r1 r2 r3 d1(2) num d2(2) num d3(2) num]
    by (simp add: map_of_dict_set d1(2) d2(2) d3(2) split: prod.splits sum.splits)
qed

lemma baseline_case_fst:
  assumes "fst (exec a w) = fst (exec a w')"
  shows "fst (baseline_case exec a label records w) = fst (baseline_case exec a label records w')"
proof (cases "exec a w")
  case p: (Pair res u)
  obtain res' u' where p': "exec a w' = (res', u')" by (cases "exec a w'")
  from assms p p' have "res' = res" by simp
  with p p' show ?thesis
    by (cases res) (simp_all add: baseline_case_def)
qed

text \<open>
  Claim C9. Against an executor whose result depends on the configuration only, not on
  the state it runs in, the baseline sweep gives the same outcome from any two states, in
  particular when it is run a second time in the state the first run left.
\<close>

theorem baseline_sweep_deterministic:
  assumes stub: "\<And>a w w'. fst (exec a w) = fst (exec a w')"
  shows "fst (gather_baselines exec w) = fst (gather_baselines exec w')"
proof -
  let ?a = "call False" and ?b = "(call True)\<lparr>limit := 999999999\<rparr>"
    and ?c = "(call True)\<lparr>limit := 25\<rparr>"
  have step: "fst (baseline_case exec a label records u) = fst (baseline_case exec a label records u')"
    for a label records u u'
    by (rule baseline_case_fst) (rule stub)
  obtain t1 u1 where b1: "baseline_case exec ?a ''RPL'' [] w = (t1, u1)"
    by (cases "baseline_case exec ?a ''RPL'' [] w")
  obtain t1' u1' where b1': "baseline_case exec ?a ''RPL'' [] w' = (t1', u1')"
    by (cases "baseline_case exec ?a ''RPL'' [] w'")
  have e1: "t1' = t1"
    using step [of ?a "''RPL''" "[]" w w'] by (simp add: b1 b1')
  show ?thesis
  proof (cases t1)
    case (Inl e)
    then show ?thesis
      by (simp add: gather_baselines_def b1 b1' e1)
  next
    case (Inr r1)
    obtain t2 u2 where b2: "baseline_case exec ?b ''InsecRPL'' r1 u1 = (t2, u2)"
      by (cases "baseline_case exec ?b ''InsecRPL'' r1 u1")
    obtain t2' u2' where b2': "baseline_case exec ?b ''InsecRPL'' r1 u1' = (t2', u2')"
      by (cases "baseline_case exec ?b ''InsecRPL'' r1 u1'")
    have e2: "t2' = t2"
      using step [of ?b "''InsecRPL''" r1 u1 u1'] by (simp add: b2 b2')
    show ?thesis
    proof (cases t2)
      case (Inl e)
      then show ?thesis
        using Inr by (simp add: gather_baselines_def b1 b1' e1 b2 b2' e2)
    next
      case r2: (Inr r2)
      show ?thesis
        using Inr r2 step [of ?c "''SecRPL''" r2 u2 u2']
        by (simp add: gather_baselines_def b1 b1' e1 b2 b2' e2)
    qed
  qed
qed

theorem baseline_sweep_deterministic_witness:
  "fst (gather_baselines (logged sample_stub) (snd (gather_baselines (logged sample_stub) [])))
     = fst (gather_baselines (logged sample_stub) [])"
proof -
  have "fst (logged sample_stub a w) = fst (logged sample_stub a w')" for a w w'
    by (simp add: logged_def)
  then show ?thesis
    by (rule baseline_sweep_deterministic)
qed

section \<open>The attack-intensity sweep\<close>

lemma attack_case_raise:
  "exec a w = (Inl e, w') \<Longrightarrow> attack_case exec a label r combined w = (Inl e, w')"
  by (simp add: attack_case_def)

lemma attack_case_layout:
  assumes "exec a w = (Inr res, w')"
  shows "attack_case exec a label r combined w =
     (Inr (combined @ if_truthy res (\<lambda>d. [tag_rate label r d]) []), w')"
proof (cases res)
  case None
  with assms show ?thesis by (simp add: attack_case_def)
next
  case (Some d)
  with assms show ?thesis by (simp add: attack_case_def)
qed

lemma attack_loop_layout:
  "attack_loop exec rs combined w =
     (case run_rates exec rs w of
        (Inl e, w') \<Rightarrow> (Inl e, w')
      | (Inr outs, w') \<Rightarrow> (Inr (combined @ rate_blocks rs outs), w'))"
proof (induction rs arbitrary: combined w)
  case Nil
  show ?case by simp
next
  case (Cons r rs)
  let ?a1 = "(call True)\<lparr>attack_rate := r, limit := 999999999\<rparr>"
  let ?a2 = "(call True)\<lparr>attack_rate := r, limit := 25\<rparr>"
  obtain x1 w1 where e1: "exec ?a1 w = (x1, w1)" by (cases "exec ?a1 w")
  show ?case
  proof (cases x1)
    case (Inl e)
    with e1 show ?thesis
      by (simp add: attack_case_raise)
  next
    case i: (Inr i)
    obtain x2 w2 where e2: "exec ?a2 w1 = (x2, w2)" by (cases "exec ?a2 w1")
    let ?c1 = "combined @ if_truthy i (\<lambda>d. [tag_rate ''InsecRPL'' r d]) []"
    have c1: "attack_case exec ?a1 ''InsecRPL'' r combined w = (Inr ?c1, w1)"
      using e1 i by (simp add: attack_case_layout)
    show ?thesis
    proof (cases x2)
      case (Inl e)
      with e1 i e2 c1 show ?thesis
        by (simp add: attack_case_raise)
    next
      case s: (Inr s)
      let ?c2 = "?c1 @ if_truthy s (\<lambda>d. [tag_rate ''SecRPL'' r d]) []"
      have c2: "attack_case exec ?a2 ''SecRPL'' r ?c1 w1 = (Inr ?c2, w2)"
        using e2 s by (simp add: attack_case_layout)
      have step: "attack_loop exec (r # rs) combined w = attack_loop exec rs ?c2 w2"
        by (simp add: c1 c2)
      obtain x3 w3 where rr: "run_rates exec rs w2 = (x3, w3)" by (cases "run_rates exec rs w2")
      show ?thesis
      proof (cases x3)
        case (Inl e)
        with e1 i e2 s rr show ?thesis
          unfolding step by (simp add: Cons.IH)
      next
        case (Inr outs)
        with e1 i e2 s rr show ?thesis
          unfolding step by (simp add: Cons.IH rate_block_def)
      qed
    qed
  qed
qed

lemma gather_attack_variants_layout:
  assumes "run_rates exec rates w = (Inr outs, w1)" and "exec (call False) w1 = (Inr ref, w2)"
  shows "gather_attack_variants exec w
           = (Inr (rate_blocks rates outs @ reference_block rates ref), w2)"
proof -
  have "attack_loop exec rates [] w = (Inr (rate_blocks rates outs), w1)"
    by (simp add: attack_loop_layout assms(1))
  then show ?thesis
    by (cases ref) (simp_all add: gather_attack_variants_def assms(2) reference_block_def)
qed

lemma run_rates_length: "run_rates exec rs w = (Inr outs, w') \<Longrightarrow> length outs = length rs"
proof (induction rs arbitrary: w outs)
  case Nil
  then show ?case by simp
next
  case (Cons r rs)
  from Cons.prems obtain i s w2 outs' where "run_rates exec rs w2 = (Inr outs', w')"
      and "outs = (i, s) # outs'"
    by (auto split: prod.splits sum.splits)
  with Cons.IH [of w2 outs'] show ?case by simp
qed












lemma run_rates_logged:
  "run_rates (logged f) rs seen =
     (Inr (map (\<lambda>r. (f ((call True)\<lparr>attack_rate := r, limit := 999999999\<rparr>),
                      f ((call True)\<lparr>attack_rate := r, limit := 25\<rparr>))) rs),
      seen @ concat (map (\<lambda>r. [(call True)\<lparr>attack_rate := r, limit := 999999999\<rparr>,
                               (call True)\<lparr>attack_rate := r, limit := 25\<rparr>]) rs))"
  by (induction rs arbitrary: seen) (simp_all add: logged_def)


lemma rates_ascending: "sorted_wrt (<) rates"
  by (simp add: rates_def)





text \<open>
  Claim C10. The table of the attack-intensity sweep is the sequence of the blocks of the
  rates, in the ascending order of \<open>rates\<close>, each block holding the InsecRPL record of
  its rate (if that run gave a record) directly before the SecRPL record of the same rate
  (if that run gave one), followed by the whole reference block, whose RPL records come
  in the order of the rates: the reference block is at the end, not spread over the rates.
\<close>

theorem attack_sweep_order:
  assumes runs: "run_rates exec rates w = (Inr outs, w1)"
    and reference: "exec (call False) w1 = (Inr ref, w2)"
  shows "gather_attack_variants exec w
           = (Inr (rate_blocks rates outs @ reference_block rates ref), w2)
    \<and> length outs = length rates
    \<and> sorted_wrt (<) rates"
  using gather_attack_variants_layout [OF runs reference] run_rates_length [OF runs]
    rates_ascending
  by simp

theorem attack_sweep_order_witness:
  "(case gather_attack_variants (logged sample_stub) [] of
      (Inl e, w') \<Rightarrow> False
    | (Inr table, w') \<Rightarrow>
        map (\<lambda>d. (map_of d ''scenario'', map_of d ''attack_pps'')) table
        = [(Some (Str ''InsecRPL''), Some (PyInt 150)), (Some (Str ''SecRPL''), Some (PyInt 150)),
           (Some (Str ''InsecRPL''), Some (PyInt 300)), (Some (Str ''SecRPL''), Some (PyInt 300)),
           (Some (Str ''InsecRPL''), Some (PyInt 500)), (Some (Str ''SecRPL''), Some (PyInt 500)),
           (Some (Str ''InsecRPL''), Some (PyInt 700)), (Some (Str ''SecRPL''), Some (PyInt 700)),
           (Some (Str ''InsecRPL''), Some (PyInt 1100)), (Some (Str ''SecRPL''), Some (PyInt 1100)),
           (Some (Str ''RPL''), Some (PyInt 150)), (Some (Str ''RPL''), Some (PyInt 300)),
           (Some (Str ''RPL''), Some (PyInt 500)), (Some (Str ''RPL''), Some (PyInt 700)),
           (Some (Str ''RPL''), Some (PyInt 900)), (Some (Str ''RPL''), Some (PyInt 1100))])"
proof -
  have ref: "logged sample_stub (call False)
               ([] @ concat (map (\<lambda>r. [(call True)\<lparr>attack_rate := r, limit := 999999999\<rparr>,
                               (call True)\<lparr>attack_rate := r, limit := 25\<rparr>]) rates))
             = (Inr (sample_stub (call False)),
                concat (map (\<lambda>r. [(call True)\<lparr>attack_rate := r, limit := 999999999\<rparr>,
                               (call True)\<lparr>attack_rate := r, limit := 25\<rparr>]) rates)
                @ [call False])"
    by (simp add: logged_def)
  from attack_sweep_order [OF run_rates_logged ref]
  have g: "gather_attack_variants (logged sample_stub) []
      = (Inr (rate_blocks rates
          (map (\<lambda>r. (sample_stub ((call True)\<lparr>attack_rate := r, limit := 999999999\<rparr>),
                      sample_stub ((call True)\<lparr>attack_rate := r, limit := 25\<rparr>))) rates)
        @ reference_block rates (sample_stub (call False))),
         concat (map (\<lambda>r. [(call True)\<lparr>attack_rate := r, limit := 999999999\<rparr>,
                               (call True)\<lparr>attack_rate := r, limit := 25\<rparr>]) rates)
                @ [call False])"
    by simp
  show ?thesis
    unfolding g
    by (simp add: rates_def rate_block_def reference_block_def sample_stub_def call_def
          map_of_tag_rate)
qed

section \<open>The threshold sweep\<close>

lemma prints_pdr_tag_threshold: "prints_pdr (tag_threshold lm d) = prints_pdr d"
  by (simp add: prints_pdr_def map_of_tag_threshold)

lemma threshold_row_cases:
  obtains (none) "threshold_row lm out = []" "\<And>f z. if_truthy out f (z::exn + pydict list) = z"
  | (some) d where "out = Some d" "d \<noteq> []" "threshold_row lm out = [tag_threshold lm d]"
proof (cases out)
  case None
  then have "threshold_row lm out = []" "\<And>f z. if_truthy out f (z::exn + pydict list) = z"
    by (simp_all add: threshold_row_def)
  then show ?thesis by (rule none)
next
  case (Some d)
  show ?thesis
  proof (cases "d = []")
    case True
    with Some have "threshold_row lm out = []"
        "\<And>f z. if_truthy out f (z::exn + pydict list) = z"
      by (simp_all add: threshold_row_def)
    then show ?thesis by (rule none)
  next
    case False
    with Some have "threshold_row lm out = [tag_threshold lm d]"
      by (simp add: threshold_row_def)
    with Some False show ?thesis by (rule some)
  qed
qed

text \<open>What one pass of the loop does, by the result of its run.\<close>

lemma threshold_case_cases:
  assumes "exec ((call True)\<lparr>attack_rate := 700, limit := lm\<rparr>) w = (x, w1)"
  obtains (run_raises) e where "x = Inl e" "threshold_case exec lm collected w = (Inl e, w1)"
  | (row) out where "x = Inr out" "list_all prints_pdr (threshold_row lm out)"
      "threshold_case exec lm collected w = (Inr (collected @ threshold_row lm out), w1)"
  | (print_raises) out e where "x = Inr out" "\<not> list_all prints_pdr (threshold_row lm out)"
      "e = KeyError \<or> e = ValueError" "threshold_case exec lm collected w = (Inl e, w1)"
      "\<exists>d. out = Some d \<and> (e = KeyError \<longrightarrow> map_of d ''pdr'' = None)"
proof (cases x)
  case (Inl e)
  with assms have "threshold_case exec lm collected w = (Inl e, w1)"
    by (simp add: threshold_case_def)
  with Inl show ?thesis by (rule run_raises)
next
  case (Inr out)
  show ?thesis
  proof (cases lm out rule: threshold_row_cases)
    case none
    with Inr assms
    have "threshold_case exec lm collected w = (Inr (collected @ threshold_row lm out), w1)"
      by (simp add: threshold_case_def)
    moreover have "list_all prints_pdr (threshold_row lm out)"
      using none(1) by simp
    ultimately show ?thesis using Inr by (intro row)
  next
    case (some d)
    show ?thesis
    proof (cases "tag_threshold lm d" rule: report_pdr_cases)
      case fine
      with Inr assms some
      have "threshold_case exec lm collected w = (Inr (collected @ threshold_row lm out), w1)"
        by (simp add: threshold_case_def and_then_def)
      moreover have "list_all prints_pdr (threshold_row lm out)"
        using some(3) fine(1) by simp
      ultimately show ?thesis using Inr by (intro row)
    next
      case no_key
      with Inr assms some
      have "threshold_case exec lm collected w = (Inl KeyError, w1)"
        by (simp add: threshold_case_def and_then_def)
      moreover have "\<not> list_all prints_pdr (threshold_row lm out)"
        using some(3) no_key(1) by simp
      moreover have "map_of d ''pdr'' = None"
        using no_key(2)
        by (simp add: report_pdr_def dict_get_def and_then_def map_of_tag_threshold
              format_3f_def split: option.splits if_splits)
      ultimately show ?thesis using Inr some(1) by (intro print_raises [of out KeyError]) auto
    next
      case not_number
      with Inr assms some
      have "threshold_case exec lm collected w = (Inl ValueError, w1)"
        by (simp add: threshold_case_def and_then_def)
      moreover have "\<not> list_all prints_pdr (threshold_row lm out)"
        using some(3) not_number(1) by simp
      ultimately show ?thesis using Inr some(1) by (intro print_raises [of out ValueError]) auto
    qed
  qed
qed

lemma threshold_loop_rows:
  assumes "run_limits exec lms w = (Inr outs, w')"
    and "list_all prints_pdr (threshold_rows lms outs)"
  shows "threshold_loop exec lms collected w = (Inr (collected @ threshold_rows lms outs), w')"
  using assms
proof (induction lms arbitrary: w outs collected)
  case Nil
  then show ?case by simp
next
  case (Cons lm lms)
  from Cons.prems(1) obtain out w1 outs'
    where e: "exec ((call True)\<lparr>attack_rate := 700, limit := lm\<rparr>) w = (Inr out, w1)"
      and rest: "run_limits exec lms w1 = (Inr outs', w')" and outs: "outs = out # outs'"
    by (auto split: prod.splits sum.splits)
  from Cons.prems(2) outs have p1: "list_all prints_pdr (threshold_row lm out)"
    and p2: "list_all prints_pdr (threshold_rows lms outs')"
    by simp_all
  from e have "threshold_case exec lm collected w = (Inr (collected @ threshold_row lm out), w1)"
  proof (cases rule: threshold_case_cases [where collected = collected])
    case (row out')
    then show ?thesis by simp
  next
    case (print_raises out' e')
    with p1 show ?thesis by simp
  qed simp
  moreover have "threshold_loop exec lms (collected @ threshold_row lm out) w1
      = (Inr ((collected @ threshold_row lm out) @ threshold_rows lms outs'), w')"
    using rest p2 by (rule Cons.IH)
  ultimately show ?case
    by (simp add: outs)
qed

lemma threshold_loop_table:
  assumes "threshold_loop exec lms collected w = (Inr table, w')"
  shows "\<exists>outs. run_limits exec lms w = (Inr outs, w')
            \<and> table = collected @ threshold_rows lms outs
            \<and> list_all prints_pdr (threshold_rows lms outs)"
  using assms
proof (induction lms arbitrary: collected w)
  case Nil
  then show ?case by simp
next
  case (Cons lm lms)
  obtain x w1 where e: "exec ((call True)\<lparr>attack_rate := 700, limit := lm\<rparr>) w = (x, w1)"
    by (cases "exec ((call True)\<lparr>attack_rate := 700, limit := lm\<rparr>) w")
  from e show ?case
  proof (cases rule: threshold_case_cases [where collected = collected])
    case (run_raises e')
    with Cons.prems show ?thesis by simp
  next
    case (print_raises out e')
    with Cons.prems show ?thesis by simp
  next
    case (row out)
    with Cons.prems
    have "threshold_loop exec lms (collected @ threshold_row lm out) w1 = (Inr table, w')"
      by simp
    then obtain outs where outs: "run_limits exec lms w1 = (Inr outs, w')"
        "table = (collected @ threshold_row lm out) @ threshold_rows lms outs"
        "list_all prints_pdr (threshold_rows lms outs)"
      using Cons.IH by blast
    have "run_limits exec (lm # lms) w = (Inr (out # outs), w')"
      using e row(1) outs(1) by simp
    moreover have "table = collected @ threshold_rows (lm # lms) (out # outs)"
      using outs(2) by simp
    moreover have "list_all prints_pdr (threshold_rows (lm # lms) (out # outs))"
      using outs(3) row(2) by simp
    ultimately show ?thesis by blast
  qed
qed

lemma threshold_loop_error:
  assumes has_pdr: "\<And>a w d w'. exec a w = (Inr (Some d), w') \<Longrightarrow> map_of d ''pdr'' \<noteq> None"
    and "threshold_loop exec lms collected w = (Inl e, w')"
  shows "e = ValueError \<or> run_limits exec lms w = (Inl e, w')"
  using assms(2)
proof (induction lms arbitrary: collected w)
  case Nil
  then show ?case by simp
next
  case (Cons lm lms)
  obtain x w1 where e: "exec ((call True)\<lparr>attack_rate := 700, limit := lm\<rparr>) w = (x, w1)"
    by (cases "exec ((call True)\<lparr>attack_rate := 700, limit := lm\<rparr>) w")
  from e show ?case
  proof (cases rule: threshold_case_cases [where collected = collected])
    case (run_raises e')
    with Cons.prems e show ?thesis by simp
  next
    case (print_raises out e')
    from print_raises(5) obtain d where d: "out = Some d"
        "e' = KeyError \<longrightarrow> map_of d ''pdr'' = None"
      by blast
    from e print_raises(1) d(1) have "map_of d ''pdr'' \<noteq> None"
      using has_pdr by blast
    with d(2) print_raises(3) have "e' = ValueError" by blast
    with Cons.prems print_raises(4) show ?thesis by simp
  next
    case (row out)
    with Cons.prems
    have "threshold_loop exec lms (collected @ threshold_row lm out) w1 = (Inl e, w')"
      by simp
    then have "e = ValueError \<or> run_limits exec lms w1 = (Inl e, w')"
      by (rule Cons.IH)
    with e row(1) show ?thesis by auto
  qed
qed

lemma threshold_rows_members:
  "d \<in> set (threshold_rows lms outs) \<Longrightarrow>
   \<exists>lm d0. lm \<in> set lms \<and> Some d0 \<in> set outs \<and> d = tag_threshold lm d0"
proof (induction lms outs rule: threshold_rows.induct)
  case (1 lm lms out outs)
  from "1.prems" have "d \<in> set (threshold_row lm out) \<or> d \<in> set (threshold_rows lms outs)"
    by simp
  then show ?case
  proof
    assume "d \<in> set (threshold_row lm out)"
    then have "\<exists>d0. out = Some d0 \<and> d = tag_threshold lm d0"
      by (cases lm out rule: threshold_row_cases) simp_all
    then show ?thesis by auto
  next
    assume "d \<in> set (threshold_rows lms outs)"
    with "1.IH" show ?thesis by auto
  qed
qed simp_all

lemma threshold_row_length: "length (threshold_row lm out) \<le> 1"
  by (cases lm out rule: threshold_row_cases) simp_all

lemma threshold_rows_length: "length (threshold_rows lms outs) \<le> length lms"
proof (induction lms outs rule: threshold_rows.induct)
  case (1 lm lms out outs)
  then show ?case
    using threshold_row_length [of lm out] by simp
qed simp_all

lemma threshold_rows_subseq:
  "subseq (map (\<lambda>d. map_of d ''threshold'') (threshold_rows lms outs))
          (map (\<lambda>lm. Some (PyInt lm)) lms)"
proof (induction lms outs rule: threshold_rows.induct)
  case (1 lm lms out outs)
  show ?case
  proof (cases lm out rule: threshold_row_cases)
    case none
    with "1.IH" show ?thesis by (simp add: list_emb_Cons)
  next
    case (some d)
    with "1.IH" show ?thesis by (simp add: map_of_tag_threshold)
  qed
qed simp_all

lemma subseq_keeps_distinct: "subseq xs ys \<Longrightarrow> distinct ys \<Longrightarrow> distinct xs"
proof (induction rule: list_emb.induct)
  case (list_emb_Nil ys)
  show ?case by simp
next
  case (list_emb_Cons xs ys y)
  then show ?case by simp
next
  case (list_emb_Cons2 x y xs ys)
  then have "distinct xs" and "x \<notin> set ys" by simp_all
  moreover have "set xs \<subseteq> set ys"
    using list_emb_Cons2.hyps(2) list_emb_set [of "(=)" xs ys] by blast
  ultimately show ?case by auto
qed

lemma run_limits_results:
  assumes Q: "\<And>a w d w'. exec a w = (Inr (Some d), w') \<Longrightarrow> Q d"
    and "run_limits exec lms w = (Inr outs, w')" and "Some d \<in> set outs"
  shows "Q d"
  using assms(2,3)
proof (induction lms arbitrary: w outs)
  case Nil
  then show ?case by simp
next
  case (Cons lm lms)
  from Cons.prems(1) obtain out w1 outs'
    where e: "exec ((call True)\<lparr>attack_rate := 700, limit := lm\<rparr>) w = (Inr out, w1)"
      and rest: "run_limits exec lms w1 = (Inr outs', w')" and outs: "outs = out # outs'"
    by (auto split: prod.splits sum.splits)
  from Cons.prems(2) outs have "out = Some d \<or> Some d \<in> set outs'" by auto
  then show ?case
  proof
    assume "out = Some d"
    with e show ?thesis using Q by blast
  next
    assume "Some d \<in> set outs'"
    with rest show ?thesis by (rule Cons.IH)
  qed
qed

lemma run_limits_invoked:
  "run_limits (execute_ns3 env) lms w = (Inr outs, w') \<Longrightarrow>
   invoked w' = invoked w @ map (\<lambda>lm. build_command (float_str env)
                                   ((call True)\<lparr>attack_rate := 700, limit := lm\<rparr>)) lms"
proof (induction lms arbitrary: w outs)
  case Nil
  then show ?case by simp
next
  case (Cons lm lms)
  let ?a = "(call True)\<lparr>attack_rate := 700, limit := lm\<rparr>"
  from Cons.prems obtain out w1 outs'
    where e: "execute_ns3 env ?a w = (Inr out, w1)"
      and rest: "run_limits (execute_ns3 env) lms w1 = (Inr outs', w')"
    by (auto split: prod.splits sum.splits)
  have "invoked w1 = invoked w @ [build_command (float_str env) ?a]"
    using execute_ns3_invoked [of env ?a w] by (simp add: e)
  moreover have "invoked w' = invoked w1 @ map (\<lambda>lm. build_command (float_str env)
                                   ((call True)\<lparr>attack_rate := 700, limit := lm\<rparr>)) lms"
    using rest by (rule Cons.IH)
  ultimately show ?case by simp
qed

lemma read_results_keys: "read_results env s = Inr d \<Longrightarrow> map fst d = result_keys"
  by (auto simp: read_results_def and_then_def result_keys_def split: sum.splits)

lemma execute_ns3_keys:
  assumes "execute_ns3 env a w = (Inr (Some d), w')"
  shows "map fst d = result_keys"
proof -
  obtain x s where run: "run_process env (build_command (float_str env) a) (ext w) = (x, s)"
    by (cases "run_process env (build_command (float_str env) a) (ext w)")
  show ?thesis
  proof (cases x)
    case (Inl e)
    with run assms show ?thesis
      by (simp add: execute_ns3_raises)
  next
    case (Inr rc)
    with run assms have "read_results env s = Inr d"
      by (simp add: execute_ns3_unfold split: if_splits sum.splits)
    then show ?thesis by (rule read_results_keys)
  qed
qed

lemma tag_threshold_keys:
  assumes "map fst d = result_keys"
  shows "map fst (tag_threshold lm d) = result_keys @ [''scenario'', ''threshold'']"
proof -
  have 1: "''scenario'' \<notin> set (map fst d)"
    unfolding assms by (simp add: result_keys_def)
  have 2: "''threshold'' \<notin> set (map fst (d @ [(''scenario'', Str ''SecRPL'')]))"
    using assms by (simp add: result_keys_def)
  show ?thesis
    unfolding tag_threshold_def dict_set_def update_new_key [OF 1] update_new_key [OF 2]
    by (simp add: assms)
qed

lemma limits_ascending: "sorted_wrt (<) limits"
  by (simp add: limits_def)

lemma limits_annotations_distinct: "distinct (map (\<lambda>lm. Some (PyInt lm)) limits)"
  by (simp add: limits_def)

text \<open>
  Claim C6. The threshold sweep over the ascending list \<open>limits\<close> runs an attack at rate
  700 with each threshold of \<open>limits\<close> in turn, each run in the state the run before left.
  When it returns a table, every run has returned, and the table is the rows of those runs
  in the order of \<open>limits\<close>: the record of a run, labelled SecRPL and annotated with the
  threshold of that very run, and no row for a run that failed. So the table has at most
  \<open>length limits\<close> records, each labelled SecRPL, each holding the seven result fields, the
  label and the threshold and no other key, so no rate annotation; the thresholds of the
  table are a subsequence of \<open>limits\<close>, so that no threshold occurs twice; and the commands
  started are those of the attack at rate 700 with each threshold of \<open>limits\<close> in turn.
  When it returns no table, it ends by the ValueError of its printed line (a delivery
  ratio that is text) or by the exception that \<^verbatim>\<open>subprocess.run\<close> raised in one of the
  runs. And when every run returns and every row holds a delivery ratio that is a number,
  the sweep does return that table.
\<close>

theorem threshold_sweep_records:
  "(case gather_threshold_tests (execute_ns3 env) w of
      (Inl e, w') \<Rightarrow>
        e = ValueError \<or> run_limits (execute_ns3 env) limits w = (Inl e, w')
    | (Inr table, w') \<Rightarrow>
        (\<exists>outs. run_limits (execute_ns3 env) limits w = (Inr outs, w')
               \<and> table = threshold_rows limits outs)
        \<and> length table \<le> length limits
        \<and> (\<forall>d \<in> set table. has_label ''SecRPL'' d
              \<and> map fst d = result_keys @ [''scenario'', ''threshold'']
              \<and> map_of d ''attack_pps'' = None
              \<and> (\<exists>lm \<in> set limits. map_of d ''threshold'' = Some (PyInt lm)))
        \<and> subseq (map (\<lambda>d. map_of d ''threshold'') table) (map (\<lambda>lm. Some (PyInt lm)) limits)
        \<and> distinct (map (\<lambda>d. map_of d ''threshold'') table)
        \<and> sorted_wrt (<) limits
        \<and> invoked w' = invoked w @ map (\<lambda>lm. build_command (float_str env)
                                    ((call True)\<lparr>attack_rate := 700, limit := lm\<rparr>)) limits)
   \<and> (run_limits (execute_ns3 env) limits w = (Inr touts, u)
        \<and> list_all prints_pdr (threshold_rows limits touts)
      \<longrightarrow> gather_threshold_tests (execute_ns3 env) w = (Inr (threshold_rows limits touts), u))"
proof
  show "run_limits (execute_ns3 env) limits w = (Inr touts, u)
        \<and> list_all prints_pdr (threshold_rows limits touts)
      \<longrightarrow> gather_threshold_tests (execute_ns3 env) w = (Inr (threshold_rows limits touts), u)"
    using threshold_loop_rows [of "execute_ns3 env" limits w touts u "[]"]
    by (simp add: gather_threshold_tests_def)
next
  have keys: "map fst d = result_keys" if "execute_ns3 env a v = (Inr (Some d), v')" for a v d v'
    using that by (rule execute_ns3_keys)
  obtain res w' where g: "gather_threshold_tests (execute_ns3 env) w = (res, w')"
    by (cases "gather_threshold_tests (execute_ns3 env) w")
  show "case gather_threshold_tests (execute_ns3 env) w of
      (Inl e, w') \<Rightarrow>
        e = ValueError \<or> run_limits (execute_ns3 env) limits w = (Inl e, w')
    | (Inr table, w') \<Rightarrow>
        (\<exists>outs. run_limits (execute_ns3 env) limits w = (Inr outs, w')
               \<and> table = threshold_rows limits outs)
        \<and> length table \<le> length limits
        \<and> (\<forall>d \<in> set table. has_label ''SecRPL'' d
              \<and> map fst d = result_keys @ [''scenario'', ''threshold'']
              \<and> map_of d ''attack_pps'' = None
              \<and> (\<exists>lm \<in> set limits. map_of d ''threshold'' = Some (PyInt lm)))
        \<and> subseq (map (\<lambda>d. map_of d ''threshold'') table) (map (\<lambda>lm. Some (PyInt lm)) limits)
        \<and> distinct (map (\<lambda>d. map_of d ''threshold'') table)
        \<and> sorted_wrt (<) limits
        \<and> invoked w' = invoked w @ map (\<lambda>lm. build_command (float_str env)
                                    ((call True)\<lparr>attack_rate := 700, limit := lm\<rparr>)) limits"
  proof (cases res)
    case (Inl e)
    with g have loop: "threshold_loop (execute_ns3 env) limits [] w = (Inl e, w')"
      by (simp add: gather_threshold_tests_def)
    have "e = ValueError \<or> run_limits (execute_ns3 env) limits w = (Inl e, w')"
    proof (rule threshold_loop_error [where exec = "execute_ns3 env"])
      show "map_of d ''pdr'' \<noteq> None" if "execute_ns3 env a v = (Inr (Some d), v')" for a v d v'
      proof -
        from that have "map fst d = result_keys" by (rule keys)
        then have "''pdr'' \<in> set (map fst d)" by (simp add: result_keys_def)
        then show ?thesis by (simp add: map_of_eq_None_iff)
      qed
      show "threshold_loop (execute_ns3 env) limits [] w = (Inl e, w')" by (rule loop)
    qed
    with g Inl show ?thesis by simp
  next
    case (Inr table)
    with g have loop: "threshold_loop (execute_ns3 env) limits [] w = (Inr table, w')"
      by (simp add: gather_threshold_tests_def)
    from threshold_loop_table [OF loop]
    obtain outs where outs: "run_limits (execute_ns3 env) limits w = (Inr outs, w')"
        "table = threshold_rows limits outs"
      by auto
    have members: "has_label ''SecRPL'' d
              \<and> map fst d = result_keys @ [''scenario'', ''threshold'']
              \<and> map_of d ''attack_pps'' = None
              \<and> (\<exists>lm \<in> set limits. map_of d ''threshold'' = Some (PyInt lm))"
      if "d \<in> set table" for d
    proof -
      from that outs(2) obtain lm d0 where lm: "lm \<in> set limits" and d0: "Some d0 \<in> set outs"
          and d: "d = tag_threshold lm d0"
        using threshold_rows_members by blast
      have k: "map fst d0 = result_keys"
      proof (rule run_limits_results [where exec = "execute_ns3 env" and Q = "\<lambda>d. map fst d = result_keys"])
        show "map fst d = result_keys" if "execute_ns3 env a v = (Inr (Some d), v')" for a v d v'
          using that by (rule keys)
        show "run_limits (execute_ns3 env) limits w = (Inr outs, w')" by (rule outs(1))
        show "Some d0 \<in> set outs" by (rule d0)
      qed
      have "''attack_pps'' \<notin> set (map fst d0)"
        unfolding k by (simp add: result_keys_def)
      then have none: "map_of d0 ''attack_pps'' = None"
        by (simp add: map_of_eq_None_iff)
      have "has_label ''SecRPL'' d"
        unfolding d by (simp add: has_label_def map_of_tag_threshold)
      moreover have "map fst d = result_keys @ [''scenario'', ''threshold'']"
        unfolding d using k by (rule tag_threshold_keys)
      moreover have "map_of d ''attack_pps'' = None"
        unfolding d by (simp add: map_of_tag_threshold none)
      moreover have "\<exists>lm \<in> set limits. map_of d ''threshold'' = Some (PyInt lm)"
        unfolding d using lm by (auto simp: map_of_tag_threshold)
      ultimately show ?thesis by blast
    qed
    have sub: "subseq (map (\<lambda>d. map_of d ''threshold'') table)
                 (map (\<lambda>lm. Some (PyInt lm)) limits)"
      unfolding outs(2) by (rule threshold_rows_subseq)
    have dist: "distinct (map (\<lambda>d. map_of d ''threshold'') table)"
      using sub limits_annotations_distinct by (rule subseq_keeps_distinct)
    have len: "length table \<le> length limits"
      unfolding outs(2) by (rule threshold_rows_length)
    from outs members sub dist len limits_ascending run_limits_invoked [OF outs(1)] g Inr
    show ?thesis by auto
  qed
qed

theorem threshold_sweep_records_witness:
  "(case gather_threshold_tests (execute_ns3 first_fails_env) \<lparr>invoked = [], ext = 0\<rparr> of
      (Inl e, w') \<Rightarrow> False
    | (Inr table, w') \<Rightarrow>
        map (\<lambda>d. map_of d ''threshold'') table
          = [Some (PyInt 15), Some (PyInt 25), Some (PyInt 35), Some (PyInt 50), Some (PyInt 70)]
        \<and> map (\<lambda>d. map_of d ''attack_pps'') table = [None, None, None, None, None]
        \<and> length (invoked w') = 6)"
proof -
  let ?R = "[(''pdr'', F64 (Fin 3 (- 2))), (''tx'', I64 400), (''rx'', I64 388),
             (''delay_ms'', F64 (Fin 45 0)), (''ctrl_tx'', I64 120), (''ctrl_rx'', I64 110),
             (''ctrl_dropped'', I64 10)]"
  let ?W = "\<lparr>invoked = [], ext = 0::nat\<rparr>"
  have run: "run_process first_fails_env (build_command (float_str first_fails_env) a) (ext v)
               = (Inr (if ext v = 0 then 1 else 0), Suc (ext v))"
    for a and v :: "nat world"
    by (simp add: first_fails_env_def)
  have rd: "read_results first_fails_env n = Inr ?R" for n
    by (simp add: read_results_def and_then_def first_fails_env_def sample_frames_def iloc0_def
          pdr_csv_def delay_csv_def overhead_csv_def delay_0_045_ms)
  have ex: "execute_ns3 first_fails_env a v
      = (Inr (if ext v = 0 then None else Some ?R),
         \<lparr>invoked = invoked v @ [build_command (float_str first_fails_env) a],
          ext = Suc (ext v)\<rparr>)"
    for a and v :: "nat world"
    by (simp add: execute_ns3_unfold [OF run] rd)
  define outs where "outs = [None, Some ?R, Some ?R, Some ?R, Some ?R, Some ?R]"
  have "fst (run_limits (execute_ns3 first_fails_env) limits ?W) = Inr outs"
    by (simp add: limits_def ex outs_def)
  then obtain u where rl: "run_limits (execute_ns3 first_fails_env) limits ?W = (Inr outs, u)"
    by (cases "run_limits (execute_ns3 first_fails_env) limits ?W") simp
  have rows: "threshold_rows limits outs
      = [tag_threshold 15 ?R, tag_threshold 25 ?R, tag_threshold 35 ?R, tag_threshold 50 ?R,
         tag_threshold 70 ?R]"
    by (simp add: limits_def outs_def threshold_row_def)
  have "prints_pdr ?R"
    by (simp add: prints_pdr_def)
  then have pr: "list_all prints_pdr (threshold_rows limits outs)"
    unfolding rows by (simp add: prints_pdr_tag_threshold)
  note inst = threshold_sweep_records [where env = first_fails_env and w = ?W and touts = outs
      and u = u]
  from inst rl pr
  have g: "gather_threshold_tests (execute_ns3 first_fails_env) ?W
             = (Inr (threshold_rows limits outs), u)"
    by blast
  from inst have "invoked u = invoked ?W @ map (\<lambda>lm. build_command (float_str first_fails_env)
                                    ((call True)\<lparr>attack_rate := 700, limit := lm\<rparr>)) limits"
    unfolding g by simp
  then have len: "length (invoked u) = 6"
    by (simp add: limits_def)
  show ?thesis
    unfolding g rows using len by (simp add: map_of_tag_threshold)
qed

section \<open>Failed runs\<close>

lemma iloc0_cases:
  obtains (fail) e where "iloc0 df col = Inl e" "no_first_row df col"
  | (ok) v where "iloc0 df col = Inr v" "\<not> no_first_row df col"
proof (cases "map_of df col")
  case None
  then have "iloc0 df col = Inl KeyError" "no_first_row df col"
    by (simp_all add: iloc0_def no_first_row_def)
  then show ?thesis by (rule fail)
next
  case (Some c)
  show ?thesis
  proof (cases "cells c")
    case Nil
    with Some have "iloc0 df col = Inl IndexError" "no_first_row df col"
      by (simp_all add: iloc0_def no_first_row_def)
    then show ?thesis by (rule fail)
  next
    case (Cons v rest)
    with Some have "iloc0 df col = Inr v" "\<not> no_first_row df col"
      by (simp_all add: iloc0_def no_first_row_def)
    then show ?thesis by (rule ok)
  qed
qed

lemma read_results_fails_iff:
  "(\<exists>e. read_results env s = Inl e) =
     (unusable (read_csv env pdr_csv s) [''pdr'', ''tx'', ''rx'']
      \<or> unusable (read_csv env delay_csv s) [''avg_delay_s'']
      \<or> unusable (read_csv env overhead_csv s)
            [''control_tx'', ''control_rx'', ''control_dropped''])"
proof (cases "read_csv env pdr_csv s")
  case (Inl e)
  then show ?thesis by (simp add: read_results_def and_then_def unusable_def)
next
  case p: (Inr pdr_df)
  show ?thesis
  proof (cases "read_csv env delay_csv s")
    case (Inl e)
    then show ?thesis by (simp add: read_results_def and_then_def unusable_def p)
  next
    case d: (Inr delay_df)
    show ?thesis
    proof (cases "read_csv env overhead_csv s")
      case (Inl e)
      then show ?thesis by (simp add: read_results_def and_then_def unusable_def p d)
    next
      case o: (Inr over_df)
      show ?thesis
        unfolding read_results_def p d o unusable_def
        by (cases pdr_df "''pdr''" rule: iloc0_cases;
            cases pdr_df "''tx''" rule: iloc0_cases;
            cases pdr_df "''rx''" rule: iloc0_cases;
            cases delay_df "''avg_delay_s''" rule: iloc0_cases;
            cases over_df "''control_tx''" rule: iloc0_cases;
            cases over_df "''control_rx''" rule: iloc0_cases;
            cases over_df "''control_dropped''" rule: iloc0_cases;
            simp add: and_then_def)
    qed
  qed
qed

lemma execute_ns3_fails_iff:
  assumes "run_process env (build_command (float_str env) a) (ext w) = (Inr rc, s)"
  shows "(fst (execute_ns3 env a w) = Inr None) = failed_run env rc s"
proof (cases "rc = 0")
  case False
  then show ?thesis
    by (simp add: execute_ns3_unfold [OF assms] failed_run_def)
next
  case True
  have "(fst (execute_ns3 env a w) = Inr None) = (\<exists>e. read_results env s = Inl e)"
    using True by (simp add: execute_ns3_unfold [OF assms] split: sum.split)
  then show ?thesis
    using True by (simp only: read_results_fails_iff failed_run_def) simp
qed

lemma attack_case_skip:
  "exec a w = (Inr None, w') \<Longrightarrow> attack_case exec a label r combined w = (Inr combined, w')"
  by (simp add: attack_case_def)

lemma baseline_case_skip:
  "exec a w = (Inr None, w') \<Longrightarrow> baseline_case exec a label records w = (Inr records, w')"
  by (simp add: baseline_case_def)

lemma threshold_case_skip:
  "exec ((call True)\<lparr>attack_rate := 700, limit := lm\<rparr>) w = (Inr None, w') \<Longrightarrow>
   threshold_case exec lm collected w = (Inr collected, w')"
  by (simp add: threshold_case_def)

text \<open>
  Claim C3, as amended. A failed run (\<^verbatim>\<open>subprocess.run\<close> returns a non-zero exit code, or
  one of the three files cannot be read, lacks a wanted column or has no data row) makes
  \<^verbatim>\<open>execute_ns3\<close> return None after the one command it started; the case of a sweep that
  made the call (baseline, attack-intensity or threshold) leaves its table as it was and
  hands on the state. A run that returned None gives no row, and each of the three sweeps
  goes on with the runs that remain: when the runs of a sweep all return, a record or
  None, and the printed lines of the baseline and threshold sweeps find a number, the
  table is the rows of the runs in their order, with nothing for the failed ones.
\<close>

theorem failed_run_is_skipped:
  assumes run: "run_process env (build_command (float_str env) a) (ext w) = (Inr rc, s)"
    and failed: "failed_run env rc s"
  shows "execute_ns3 env a w
           = (Inr None, \<lparr>invoked = invoked w @ [build_command (float_str env) a], ext = s\<rparr>)
    \<and> attack_case (execute_ns3 env) a label r combined w
           = (Inr combined, \<lparr>invoked = invoked w @ [build_command (float_str env) a], ext = s\<rparr>)
    \<and> baseline_case (execute_ns3 env) a label combined w
           = (Inr combined, \<lparr>invoked = invoked w @ [build_command (float_str env) a], ext = s\<rparr>)
    \<and> (a = (call True)\<lparr>attack_rate := 700, limit := lm\<rparr> \<longrightarrow>
          threshold_case (execute_ns3 env) lm combined w
           = (Inr combined, \<lparr>invoked = invoked w @ [build_command (float_str env) a], ext = s\<rparr>))
    \<and> baseline_row label None = [] \<and> rate_block r None None = [] \<and> threshold_row lm None = []
    \<and> (exec (call False) u = (Inr o1, u1)
        \<and> exec ((call True)\<lparr>limit := 999999999\<rparr>) u1 = (Inr o2, u2)
        \<and> exec ((call True)\<lparr>limit := 25\<rparr>) u2 = (Inr o3, u3)
        \<and> list_all prints_pdr (baseline_row ''RPL'' o1 @ baseline_row ''InsecRPL'' o2
                                 @ baseline_row ''SecRPL'' o3)
       \<longrightarrow> gather_baselines exec u
             = (Inr (baseline_row ''RPL'' o1 @ baseline_row ''InsecRPL'' o2
                     @ baseline_row ''SecRPL'' o3), u3))
    \<and> (run_rates exec rates u = (Inr routs, u1) \<and> exec (call False) u1 = (Inr ref, u2)
       \<longrightarrow> gather_attack_variants exec u
             = (Inr (rate_blocks rates routs @ reference_block rates ref), u2))
    \<and> (run_limits exec limits u = (Inr touts, u1)
        \<and> list_all prints_pdr (threshold_rows limits touts)
       \<longrightarrow> gather_threshold_tests exec u = (Inr (threshold_rows limits touts), u1))"
proof -
  let ?w' = "\<lparr>invoked = invoked w @ [build_command (float_str env) a], ext = s\<rparr>"
  have none: "fst (execute_ns3 env a w) = Inr None"
    using failed by (simp only: execute_ns3_fails_iff [OF run])
  have "snd (execute_ns3 env a w) = ?w'"
    by (simp add: execute_ns3_unfold [OF run])
  with none have ex: "execute_ns3 env a w = (Inr None, ?w')"
    by (simp add: prod_eq_iff)
  have 2: "attack_case (execute_ns3 env) a label r combined w = (Inr combined, ?w')"
    using ex by (rule attack_case_skip)
  have 3: "baseline_case (execute_ns3 env) a label combined w = (Inr combined, ?w')"
    using ex by (rule baseline_case_skip)
  have 4: "threshold_case (execute_ns3 env) lm combined w = (Inr combined, ?w')"
    if "a = (call True)\<lparr>attack_rate := 700, limit := lm\<rparr>"
    using ex unfolding that by (rule threshold_case_skip)
  have 5: "baseline_row label None = [] \<and> rate_block r None None = []
           \<and> threshold_row lm None = []"
    by (simp add: baseline_row_def rate_block_def threshold_row_def)
  have 6: "gather_baselines exec u
             = (Inr (baseline_row ''RPL'' o1 @ baseline_row ''InsecRPL'' o2
                     @ baseline_row ''SecRPL'' o3), u3)"
    if "exec (call False) u = (Inr o1, u1)"
      "exec ((call True)\<lparr>limit := 999999999\<rparr>) u1 = (Inr o2, u2)"
      "exec ((call True)\<lparr>limit := 25\<rparr>) u2 = (Inr o3, u3)"
      "list_all prints_pdr (baseline_row ''RPL'' o1 @ baseline_row ''InsecRPL'' o2
                                 @ baseline_row ''SecRPL'' o3)"
    using that by (rule gather_baselines_rows)
  have 7: "gather_attack_variants exec u
             = (Inr (rate_blocks rates routs @ reference_block rates ref), u2)"
    if "run_rates exec rates u = (Inr routs, u1)" "exec (call False) u1 = (Inr ref, u2)"
    using that by (rule gather_attack_variants_layout)
  have 8: "gather_threshold_tests exec u = (Inr (threshold_rows limits touts), u1)"
    if "run_limits exec limits u = (Inr touts, u1)"
      "list_all prints_pdr (threshold_rows limits touts)"
    using threshold_loop_rows [OF that, of "[]"] by (simp add: gather_threshold_tests_def)
  from ex 2 3 4 5 6 7 8 show ?thesis by blast
qed

lemma run_limits_logged:
  "run_limits (logged f) lms seen =
     (Inr (map (\<lambda>lm. f ((call True)\<lparr>attack_rate := 700, limit := lm\<rparr>)) lms),
      seen @ map (\<lambda>lm. (call True)\<lparr>attack_rate := 700, limit := lm\<rparr>) lms)"
  by (induction lms arbitrary: seen) (simp_all add: logged_def)

theorem failed_run_is_skipped_witness:
  "failed_run missing_file_env 0 ()
   \<and> fst (execute_ns3 missing_file_env (call False) start) = Inr None
   \<and> fst (attack_case (execute_ns3 missing_file_env) (call False) ''RPL'' 150 [] start) = Inr []
   \<and> (case gather_threshold_tests (logged sample_stub) [] of
         (Inl e, u) \<Rightarrow> False
       | (Inr table, u) \<Rightarrow>
           map (\<lambda>d. map_of d ''threshold'') table
             = [Some (PyInt 15), Some (PyInt 25), Some (PyInt 35), Some (PyInt 50),
                Some (PyInt 70)]
           \<and> length u = 6)"
proof -
  have run: "run_process missing_file_env
               (build_command (float_str missing_file_env) (call False)) (ext start)
             = (Inr 0, ())"
    by (simp add: missing_file_env_def)
  have failed: "failed_run missing_file_env 0 ()"
    by (simp add: failed_run_def unusable_def missing_file_env_def pdr_csv_def delay_csv_def)
  let ?outs = "map (\<lambda>lm. sample_stub ((call True)\<lparr>attack_rate := 700, limit := lm\<rparr>)) limits"
  let ?log = "[] @ map (\<lambda>lm. (call True)\<lparr>attack_rate := 700, limit := lm\<rparr>) limits"
  have rows: "map (\<lambda>d. map_of d ''threshold'') (threshold_rows limits ?outs)
      = [Some (PyInt 15), Some (PyInt 25), Some (PyInt 35), Some (PyInt 50), Some (PyInt 70)]"
    by (simp add: limits_def sample_stub_def call_def threshold_row_def map_of_tag_threshold)
  have pr: "list_all prints_pdr (threshold_rows limits ?outs)"
    by (simp add: limits_def sample_stub_def call_def threshold_row_def prints_pdr_tag_threshold)
       (simp add: prints_pdr_def)
  note inst = failed_run_is_skipped [OF run failed, where label = "''RPL''" and r = 150
      and combined = "[]" and exec = "logged sample_stub" and u = "[]" and touts = ?outs
      and ?u1.0 = ?log]
  from inst run_limits_logged [of sample_stub limits "[]"] pr
  have g: "gather_threshold_tests (logged sample_stub) [] = (Inr (threshold_rows limits ?outs), ?log)"
    by blast
  have len: "length ?log = 6"
    by (simp add: limits_def)
  from inst have "fst (execute_ns3 missing_file_env (call False) start) = Inr None"
    and "fst (attack_case (execute_ns3 missing_file_env) (call False) ''RPL'' 150 [] start) = Inr []"
    by simp_all
  with failed rows len show ?thesis
    unfolding g by simp
qed

text \<open>
  Claim C3 as stated fails in two ways. For a first row that does not parse as a number,
  pandas reads the column as text, the executor returns a record holding that text, and
  the printed line of \<^verbatim>\<open>gather_baselines\<close> then raises ValueError out of the generator.
  And when the output of the process is not valid text, \<^verbatim>\<open>subprocess.run\<close> raises
  UnicodeDecodeError, whatever the exit code: the executor does not return, and the
  exception leaves the sweep.
\<close>

theorem text_first_row_counterexample:
  "read_csv text_row_env pdr_csv ()
     = Inr [(''pdr'', Texts [Some ''error'', Some ''0'']), (''tx'', Ints [400, 1]), (''rx'', Ints [388, 2])]
   \<and> fst (execute_ns3 text_row_env (call False) start)
     = Inr (Some [(''pdr'', Str ''error''), (''tx'', I64 400), (''rx'', I64 388),
                  (''delay_ms'', F64 (Fin 45 0)), (''ctrl_tx'', I64 120), (''ctrl_rx'', I64 110),
                  (''ctrl_dropped'', I64 10)])
   \<and> fst (gather_baselines (execute_ns3 text_row_env) start) = Inl ValueError
   \<and> fst (execute_ns3 undecodable_env (call False) start) = Inl UnicodeDecodeError
   \<and> fst (gather_attack_variants (execute_ns3 undecodable_env) start) = Inl UnicodeDecodeError"
proof -
  let ?R = "[(''pdr'', Str ''error''), (''tx'', I64 400), (''rx'', I64 388),
             (''delay_ms'', F64 (Fin 45 0)), (''ctrl_tx'', I64 120), (''ctrl_rx'', I64 110),
             (''ctrl_dropped'', I64 10)]"
  have run: "run_process text_row_env (build_command (float_str text_row_env) a) (ext w)
               = (Inr 0, ())"
    for a and w :: "unit world"
    by (simp add: text_row_env_def)
  have rd: "read_results text_row_env () = Inr ?R"
    by (simp add: read_results_def and_then_def text_row_env_def sample_frames_def iloc0_def
          pdr_csv_def delay_csv_def overhead_csv_def delay_0_045_ms)
  have ex: "execute_ns3 text_row_env a w
      = (Inr (Some ?R), \<lparr>invoked = invoked w @ [build_command (float_str text_row_env) a],
                          ext = ()\<rparr>)"
    for a and w :: "unit world"
    by (simp add: execute_ns3_unfold [OF run] rd)
  have "baseline_case (execute_ns3 text_row_env) (call False) ''RPL'' [] start
      = (Inl ValueError, \<lparr>invoked = invoked start
                             @ [build_command (float_str text_row_env) (call False)], ext = ()\<rparr>)"
    by (simp add: baseline_case_def ex report_pdr_def dict_get_def dict_set_def and_then_def
          format_3f_def)
  then have b: "fst (gather_baselines (execute_ns3 text_row_env) start) = Inl ValueError"
    by (simp add: gather_baselines_def)
  have fr: "read_csv text_row_env pdr_csv ()
     = Inr [(''pdr'', Texts [Some ''error'', Some ''0'']), (''tx'', Ints [400, 1]), (''rx'', Ints [388, 2])]"
    by (simp add: text_row_env_def sample_frames_def)
  have run': "run_process undecodable_env (build_command (float_str undecodable_env) a) (ext w)
               = (Inl UnicodeDecodeError, ())"
    for a and w :: "unit world"
    by (simp add: undecodable_env_def)
  have ex': "execute_ns3 undecodable_env a w
      = (Inl UnicodeDecodeError,
         \<lparr>invoked = invoked w @ [build_command (float_str undecodable_env) a], ext = ()\<rparr>)"
    for a and w :: "unit world"
    by (rule execute_ns3_raises [OF run'])
  have s: "fst (gather_attack_variants (execute_ns3 undecodable_env) start) = Inl UnicodeDecodeError"
    by (simp add: gather_attack_variants_def rates_def attack_case_raise [OF ex'])
  from fr ex [of "call False" start] b ex' [of "call False" start] s
  show ?thesis by simp
qed

section \<open>The environment checks\<close>

lemma output_dir_chain:
  "dir_chain_from [] OUTPUT_DIR =
     [''/home'', ''/home/chirag'', ''/home/chirag/acn_gowda'', NS3_ROOT, OUTPUT_DIR]"
  by (simp add: OUTPUT_DIR_def NS3_ROOT_def path_join_def)

lemma makedirs_chain_other:
  "makedirs_chain may_create ds fs = Inr fs' \<Longrightarrow> p \<notin> set ds \<Longrightarrow> fs' p = fs p"
proof (induction ds arbitrary: fs)
  case Nil
  then show ?case by simp
next
  case (Cons d ds)
  show ?case
  proof (cases "fs d")
    case None
    with Cons.prems have rest: "makedirs_chain may_create ds (fs(d \<mapsto> Dir)) = Inr fs'"
      by (simp split: if_splits)
    from Cons.prems(2) have "p \<notin> set ds" and "p \<noteq> d" by simp_all
    from rest this(1) have "fs' p = (fs(d \<mapsto> Dir)) p" by (rule Cons.IH)
    with \<open>p \<noteq> d\<close> show ?thesis by simp
  next
    case (Some n)
    with Cons.prems(1) have rest: "makedirs_chain may_create ds fs = Inr fs'"
      by (cases n; simp)
    from Cons.prems(2) have "p \<notin> set ds" by simp
    with rest show ?thesis by (rule Cons.IH)
  qed
qed

lemma makedirs_chain_keeps:
  "makedirs_chain may_create ds fs = Inr fs' \<Longrightarrow> fs p = Some Dir \<Longrightarrow> fs' p = Some Dir"
proof (induction ds arbitrary: fs)
  case Nil
  then show ?case by simp
next
  case (Cons d ds)
  show ?case
  proof (cases "fs d")
    case None
    with Cons.prems have "makedirs_chain may_create ds (fs(d \<mapsto> Dir)) = Inr fs'"
      by (simp split: if_splits)
    moreover have "(fs(d \<mapsto> Dir)) p = Some Dir"
      using Cons.prems(2) by simp
    ultimately show ?thesis by (rule Cons.IH)
  next
    case (Some n)
    with Cons.prems(1) have "makedirs_chain may_create ds fs = Inr fs'"
      by (cases n; simp)
    then show ?thesis using Cons.prems(2) by (rule Cons.IH)
  qed
qed

lemma makedirs_chain_creates:
  "makedirs_chain may_create ds fs = Inr fs' \<Longrightarrow> p \<in> set ds \<Longrightarrow> fs' p = Some Dir"
proof (induction ds arbitrary: fs)
  case Nil
  then show ?case by simp
next
  case (Cons d ds)
  show ?case
  proof (cases "fs d")
    case None
    with Cons.prems have rest: "makedirs_chain may_create ds (fs(d \<mapsto> Dir)) = Inr fs'"
      by (simp split: if_splits)
    show ?thesis
    proof (cases "p = d")
      case True
      have "(fs(d \<mapsto> Dir)) d = Some Dir" by simp
      with rest have "fs' d = Some Dir" by (rule makedirs_chain_keeps)
      with True show ?thesis by simp
    next
      case False
      with Cons.prems(2) have "p \<in> set ds" by simp
      with rest show ?thesis by (rule Cons.IH)
    qed
  next
    case (Some n)
    with Cons.prems(1) have n: "n = Dir" and rest: "makedirs_chain may_create ds fs = Inr fs'"
      by (cases n; simp)+
    show ?thesis
    proof (cases "p = d")
      case True
      from Some n have "fs d = Some Dir" by simp
      with rest have "fs' d = Some Dir" by (rule makedirs_chain_keeps)
      with True show ?thesis by simp
    next
      case False
      with Cons.prems(2) have "p \<in> set ds" by simp
      with rest show ?thesis by (rule Cons.IH)
    qed
  qed
qed

lemma makedirs_chain_error:
  "makedirs_chain may_create ds fs = Inl e \<Longrightarrow> e = OSError"
proof (induction ds arbitrary: fs)
  case Nil
  then show ?case by simp
next
  case (Cons d ds)
  show ?case
  proof (cases "fs d")
    case None
    show ?thesis
    proof (cases "may_create d")
      case True
      with None Cons.prems have "makedirs_chain may_create ds (fs(d \<mapsto> Dir)) = Inl e"
        by simp
      then show ?thesis by (rule Cons.IH)
    next
      case False
      with None Cons.prems show ?thesis by simp
    qed
  next
    case (Some n)
    show ?thesis
    proof (cases n)
      case File
      with Some Cons.prems show ?thesis by simp
    next
      case Dir
      with Some Cons.prems have "makedirs_chain may_create ds fs = Inl e" by simp
      then show ?thesis by (rule Cons.IH)
    qed
  qed
qed

lemma scratch_not_in_chain: "SCRATCH_DIR \<notin> set (dir_chain_from [] OUTPUT_DIR)"
  unfolding output_dir_chain
  by (simp add: SCRATCH_DIR_def OUTPUT_DIR_def NS3_ROOT_def path_join_def)

lemma code_file_not_in_chain: "code_file \<notin> set (dir_chain_from [] OUTPUT_DIR)"
  unfolding output_dir_chain
  by (simp add: code_file_def SCRATCH_DIR_def OUTPUT_DIR_def NS3_ROOT_def path_join_def)

lemma root_in_chain: "NS3_ROOT \<in> set (dir_chain_from [] OUTPUT_DIR)"
  unfolding output_dir_chain by simp

text \<open>
  Claim C7. In a file system where the scratch directory can only exist inside an existing
  root directory: if the root directory, the scratch directory or the simulation source
  \<^verbatim>\<open>dioneighbour.cc\<close> is absent, the script ends with the state it started in, so that
  no external process has been started and no sweep has run, and it ends by a reported
  error: exit code 1 after the scratch-directory message, an early return of
  \<^verbatim>\<open>main\<close> after the source-file message, or the OSError of
  \<^verbatim>\<open>os.makedirs\<close>. (An absent root directory is first created by
  \<^verbatim>\<open>os.makedirs\<close>, or makes it raise; the run then stops at the scratch directory.)
\<close>

theorem missing_environment_stops_the_script:
  assumes inside: "path_exists fs SCRATCH_DIR \<longrightarrow> path_exists fs NS3_ROOT"
    and missing: "\<not> path_exists fs NS3_ROOT \<or> \<not> path_exists fs SCRATCH_DIR
                  \<or> \<not> path_exists fs code_file"
  shows "snd (script env may_create fs w) = w
    \<and> fst (script env may_create fs w)
        \<in> {Uncaught OSError, Exited 1 ScratchMissing, Returned CodeFileMissing}
    \<and> (\<forall>b r t. fst (script env may_create fs w) \<noteq> Sweeps_done b r t)"
proof (cases "os_makedirs may_create OUTPUT_DIR fs")
  case (Inl e)
  then have "e = OSError"
    unfolding os_makedirs_def by (rule makedirs_chain_error)
  with Inl show ?thesis
    by (simp add: script_def)
next
  case (Inr fs1)
  then have chain: "makedirs_chain may_create (dir_chain_from [] OUTPUT_DIR) fs = Inr fs1"
    by (simp add: os_makedirs_def)
  have root: "path_exists fs1 NS3_ROOT"
    using makedirs_chain_creates [OF chain root_in_chain] by (simp add: path_exists_def)
  have scratch: "path_exists fs1 SCRATCH_DIR = path_exists fs SCRATCH_DIR"
    using makedirs_chain_other [OF chain scratch_not_in_chain] by (simp add: path_exists_def)
  have code: "path_exists fs1 code_file = path_exists fs code_file"
    using makedirs_chain_other [OF chain code_file_not_in_chain] by (simp add: path_exists_def)
  show ?thesis
  proof (cases "path_exists fs SCRATCH_DIR")
    case False
    then show ?thesis
      by (simp add: script_def Inr root scratch)
  next
    case True
    with inside missing have "\<not> path_exists fs code_file" by blast
    with True show ?thesis
      by (simp add: script_def Inr root scratch main_def code)
  qed
qed

theorem missing_environment_stops_the_script_witness:
  "\<not> path_exists Map.empty NS3_ROOT
   \<and> \<not> path_exists Map.empty SCRATCH_DIR
   \<and> script sample_env (\<lambda>d. True) Map.empty start = (Exited 1 ScratchMissing, start)
   \<and> script sample_env (\<lambda>d. False) Map.empty start = (Uncaught OSError, start)"
proof -
  have h1: "path_exists Map.empty SCRATCH_DIR \<longrightarrow> path_exists Map.empty NS3_ROOT"
    by (simp add: path_exists_def)
  have h2: "\<not> path_exists Map.empty NS3_ROOT \<or> \<not> path_exists Map.empty SCRATCH_DIR
            \<or> \<not> path_exists Map.empty code_file"
    by (simp add: path_exists_def)
  have a: "fst (script sample_env (\<lambda>d. True) Map.empty start) = Exited 1 ScratchMissing"
    by (simp add: script_def os_makedirs_def output_dir_chain path_exists_def
          SCRATCH_DIR_def OUTPUT_DIR_def NS3_ROOT_def path_join_def)
  have b: "fst (script sample_env (\<lambda>d. False) Map.empty start) = Uncaught OSError"
    by (simp add: script_def os_makedirs_def output_dir_chain)
  show ?thesis
    using a b missing_environment_stops_the_script [OF h1 h2, of sample_env "\<lambda>d. True" start]
      missing_environment_stops_the_script [OF h1 h2, of sample_env "\<lambda>d. False" start]
    by (simp add: prod_eq_iff path_exists_def)
qed

end
